theory Spec2Isabelle
  imports Complex_Main
begin

section \<open>Technique handlers of harp-mapview: a shallow embedding\<close>

text \<open>
  The development follows the TypeScript sources of the technique-handler subsystem:
  \<^item> \<^verbatim>\<open>techniques/TechniqueHandler.ts\<close>: the update context, object entries, the registry;
  \<^item> \<^verbatim>\<open>techniques/TechniqueHandlerCommon.ts\<close>: \<^verbatim>\<open>GenericTechniqueHandler\<close> and
    \<^verbatim>\<open>updateBaseColor\<close>;
  \<^item> \<^verbatim>\<open>TechniqueHandlerPool\<close> (pool of handlers keyed by \<^verbatim>\<open>technique._key\<close>);
  \<^item> \<^verbatim>\<open>SolidLineTechniqueHandler\<close> (width updaters, secondary material, object creation);
  \<^item> \<^verbatim>\<open>geometry/TileGeometryCreator.ts\<close>: the group loop of \<^verbatim>\<open>createObjects\<close>.

  Conventions. Mutation is explicit state passing. Objects that the code shares by
  reference (meshes, tiles, pooled handlers) live in stores indexed by natural numbers,
  and \<^verbatim>\<open>new\<close> takes the next free index. An exception is a value of type \<open>error\<close>.
  A JavaScript number is a real or \<open>NaN\<close> (rounding and infinities are not modelled);
  frame numbers, buffer offsets and tile offsets, which the program only counts and
  compares, are integers.
\<close>

subsection \<open>Numbers and the update context\<close>

datatype number = Num real | NaN

text \<open>\<^verbatim>\<open>a * b\<close> on numbers.\<close>

fun mul :: "number \<Rightarrow> number \<Rightarrow> number" where
  "mul (Num a) (Num b) = Num (a * b)"
| "mul _ _ = NaN"

text \<open>\<^verbatim>\<open>a <= b\<close> on numbers: false as soon as one side is \<open>NaN\<close>.\<close>

fun lessEq :: "number \<Rightarrow> number \<Rightarrow> bool" where
  "lessEq (Num a) (Num b) = (a \<le> b)"
| "lessEq _ _ = False"

text \<open>
  \<^verbatim>\<open>a === b\<close> on values that are a number or \<^verbatim>\<open>undefined\<close> (\<open>None\<close>): \<open>NaN\<close> is not
  equal to itself.
\<close>

fun strictEq :: "number option \<Rightarrow> number option \<Rightarrow> bool" where
  "strictEq None None = True"
| "strictEq (Some (Num a)) (Some (Num b)) = (a = b)"
| "strictEq _ _ = False"

text \<open>\<^verbatim>\<open>a > 0\<close> on a number or \<^verbatim>\<open>undefined\<close>.\<close>

fun greaterZero :: "number option \<Rightarrow> bool" where
  "greaterZero (Some (Num a)) = (0 < a)"
| "greaterZero _ = False"

text \<open>\<^verbatim>\<open>Env.lookup(name)\<close> returns a value or \<^verbatim>\<open>undefined\<close>.\<close>

type_synonym Env = "string \<Rightarrow> number option"

text \<open>
  \<^verbatim>\<open>interface TechniqueUpdateContext\<close>. The view ranges, the projection and the cache of
  expression results are not read by the functions embedded here.
\<close>

record TechniqueUpdateContext =
  env :: Env
  frameNumber :: int

subsection \<open>\<^verbatim>\<open>GenericTechniqueHandler\<close>\<close>

text \<open>
  \<^verbatim>\<open>type TechniqueUpdater = (context: TechniqueUpdateContext) => void\<close>: a closure that
  mutates the materials and objects it is bound to. The state it mutates is \<open>'w\<close>. An
  updater returns: the handlers register an updater with an assertion only where the
  assertion holds.
\<close>

type_synonym 'w TechniqueUpdater = "TechniqueUpdateContext \<Rightarrow> 'w \<Rightarrow> 'w"

text \<open>
  The classes that extend \<^verbatim>\<open>GenericTechniqueHandler\<close> are extensions of this record, and
  the functions below take any extension. \<^verbatim>\<open>TerrainTechniqueHandler\<close>, which implements the
  interface \<^verbatim>\<open>TechniqueHandler\<close> itself, has the same fields with no updater.
\<close>

record 'w GenericTechniqueHandler =
  isShareableAcrossTiles :: bool
  updaters :: "'w TechniqueUpdater list"
  lastUpdateFrameNumber :: int

text \<open>The field initialisers: shareable, no updater, last frame \<open>-1\<close>.\<close>

definition newGenericTechniqueHandler :: "'w GenericTechniqueHandler" where
  "newGenericTechniqueHandler =
     \<lparr>isShareableAcrossTiles = True, updaters = [], lastUpdateFrameNumber = -1\<rparr>"

definition isDynamic :: "('w, 'z) GenericTechniqueHandler_scheme \<Rightarrow> bool" where
  "isDynamic h = (length (updaters h) > 0)"

text \<open>\<^verbatim>\<open>for (const updater of this.updaters) { updater(context); }\<close>\<close>

fun runUpdaters :: "TechniqueUpdateContext \<Rightarrow> 'w TechniqueUpdater list \<Rightarrow> 'w \<Rightarrow> 'w" where
  "runUpdaters context [] w = w"
| "runUpdaters context (updater # rest) w = runUpdaters context rest (updater context w)"

text \<open>
  \<^verbatim>\<open>update(context)\<close>: returns at once when the frame number is the recorded one; otherwise
  it records the frame number and then runs the updaters.
\<close>

definition update ::
  "TechniqueUpdateContext \<Rightarrow> ('w, 'z) GenericTechniqueHandler_scheme \<times> 'w \<Rightarrow>
   ('w, 'z) GenericTechniqueHandler_scheme \<times> 'w"
where
  "update context s =
     (case s of (h, w) \<Rightarrow>
        if frameNumber context = lastUpdateFrameNumber h then (h, w)
        else
          let h' = h\<lparr>lastUpdateFrameNumber := frameNumber context\<rparr>
          in (h', runUpdaters context (updaters h') w))"


subsection \<open>\<^verbatim>\<open>TechniqueHandlerPool\<close>\<close>

datatype error = UnknownTechnique string | TypeError | AssertionFailed

text \<open>
  What the pool and the group loop read of a technique: \<^verbatim>\<open>name\<close>, \<^verbatim>\<open>_key\<close> (of an
  \<^verbatim>\<open>IndexedTechnique\<close>) and \<^verbatim>\<open>enabled\<close> (\<^verbatim>\<open>undefined\<close> is \<open>None\<close>).
\<close>

record Technique =
  name :: string
  key :: string
  enabled :: "bool option"

text \<open>What the embedded functions read of a \<^verbatim>\<open>Tile\<close>.\<close>

record Tile =
  offset :: int
  frameNumLastVisible :: int

text \<open>
  \<^verbatim>\<open>TechniqueHandlerContstructor\<close> and the registry \<^verbatim>\<open>techniqueHandlers\<close>, an object indexed
  by technique name that the handler modules fill when they are loaded.
\<close>

type_synonym ('w, 'z) TechniqueHandlerContstructor =
  "Technique \<Rightarrow> Tile \<Rightarrow> TechniqueUpdateContext \<Rightarrow> ('w, 'z) GenericTechniqueHandler_scheme"

type_synonym ('w, 'z) techniqueHandlers =
  "string \<Rightarrow> ('w, 'z) TechniqueHandlerContstructor option"

text \<open>
  The pool is a \<^verbatim>\<open>Map\<close> from keys to handler objects. Handler objects are references:
  \<open>allocated\<close> lists every handler constructed so far, and a reference is an index
  into it.
\<close>

record ('w, 'z) TechniqueHandlerPool =
  pool :: "string \<Rightarrow> nat option"
  allocated :: "('w, 'z) GenericTechniqueHandler_scheme list"

definition canHandle :: "('w, 'z) techniqueHandlers \<Rightarrow> Technique \<Rightarrow> bool" where
  "canHandle registry technique = (registry (name technique) \<noteq> None)"

text \<open>
  \<^verbatim>\<open>getTechniqueHandler(technique, tile, context)\<close>. The closing assertion, that the
  handler has a \<^verbatim>\<open>createObject\<close> method, holds of every registered constructor.
\<close>

definition getTechniqueHandler ::
  "('w, 'z) techniqueHandlers \<Rightarrow> Technique \<Rightarrow> Tile \<Rightarrow> TechniqueUpdateContext \<Rightarrow>
   ('w, 'z) TechniqueHandlerPool \<Rightarrow> error + (nat \<times> ('w, 'z) TechniqueHandlerPool)"
where
  "getTechniqueHandler registry technique tile context st =
     (case pool st (key technique) of
        Some handler \<Rightarrow> Inr (handler, st)
      | None \<Rightarrow>
          (case registry (name technique) of
             None \<Rightarrow> Inl (UnknownTechnique (name technique))
           | Some techniqueHandlerCtor \<Rightarrow>
               let h = techniqueHandlerCtor technique tile context;
                   handler = length (allocated st);
                   st1 = st\<lparr>allocated := allocated st @ [h]\<rparr>;
                   st2 = (if isShareableAcrossTiles h
                          then st1\<lparr>pool := (pool st1)(key technique \<mapsto> handler)\<rparr>
                          else st1)
               in Inr (handler, st2)))"

definition reset :: "('w, 'z) TechniqueHandlerPool \<Rightarrow> ('w, 'z) TechniqueHandlerPool" where
  "reset st = st\<lparr>pool := Map.empty\<rparr>"

text \<open>
  Any later use of a pool: a sequence of calls of \<^verbatim>\<open>getTechniqueHandler\<close> (a call that throws
  leaves the pool as it was) and \<^verbatim>\<open>reset\<close>.
\<close>

datatype poolCall = GetTechniqueHandler Technique Tile TechniqueUpdateContext | Reset

fun poolCalls ::
  "('w, 'z) techniqueHandlers \<Rightarrow> poolCall list \<Rightarrow> ('w, 'z) TechniqueHandlerPool \<Rightarrow>
   ('w, 'z) TechniqueHandlerPool"
where
  "poolCalls registry [] st = st"
| "poolCalls registry (GetTechniqueHandler technique tile context # calls) st =
     (case getTechniqueHandler registry technique tile context st of
        Inl e \<Rightarrow> poolCalls registry calls st
      | Inr (handler, st') \<Rightarrow> poolCalls registry calls st')"
| "poolCalls registry (Reset # calls) st = poolCalls registry calls (reset st)"

text \<open>Every pooled reference is the reference of a constructed handler.\<close>

definition pooledAllocated :: "('w, 'z) TechniqueHandlerPool \<Rightarrow> bool" where
  "pooledAllocated st = (\<forall>handler \<in> ran (pool st). handler < length (allocated st))"

subsection \<open>\<^verbatim>\<open>TileGeometryCreator.createObjects\<close>\<close>

text \<open>
  \<^verbatim>\<open>interface Group\<close>: a span of a geometry's buffers and the index of its technique. The
  groups of a decoded tile carry \<^verbatim>\<open>createdOffsets\<close>, which \<^verbatim>\<open>initDecodedTile\<close> sets to the
  empty array; \<^verbatim>\<open>mergedGroup\<close> has none.
\<close>

record Group =
  start :: int
  count :: int
  technique :: nat

record TileGroup = Group +
  createdOffsets :: "int list"

record Geometry =
  groups :: "TileGroup list"

record DecodedTile =
  techniques :: "Technique list"
  geometries :: "Geometry list"

text \<open>
  \<^verbatim>\<open>initDecodedTile\<close>, the part that prepares the groups.
\<close>

definition initDecodedTile :: "DecodedTile \<Rightarrow> DecodedTile" where
  "initDecodedTile decodedTile =
     decodedTile\<lparr>geometries :=
       map (\<lambda>srcGeometry. srcGeometry\<lparr>groups :=
              map (\<lambda>g. g\<lparr>createdOffsets := []\<rparr>) (groups srcGeometry)\<rparr>)
           (geometries decodedTile)\<rparr>"

text \<open>
  The calls that \<^verbatim>\<open>createObjects\<close> makes, in order: a request to the pool for the handler of
  a technique index, \<^verbatim>\<open>createObject\<close> of a handler on a merged group, and the construction of
  an object with a material of the function's own on a merged group.
\<close>

datatype 'm call =
  PoolRequest nat
| CreateObject nat Group
| NewObject 'm Group

text \<open>
  What \<^verbatim>\<open>createObjects\<close> reads and does not change: the registry, the tile, the update
  context of the map view, the technique filter, and two functions of
  \<^verbatim>\<open>DecodedTileHelpers\<close>, \<^verbatim>\<open>getObjectConstructor\<close> (only whether it returns a constructor
  matters) and \<^verbatim>\<open>createMaterial\<close>.
\<close>

record ('w, 'z, 'm) CreatorInput =
  registeredHandlers :: "('w, 'z) techniqueHandlers"
  currentTile :: Tile
  techniqueUpdateContext :: TechniqueUpdateContext
  techniqueFilter :: "(Technique \<Rightarrow> bool) option"
  getObjectConstructor :: "Technique \<Rightarrow> bool"
  createMaterial :: "Technique \<Rightarrow> 'm option"

text \<open>
  What it changes: the pool of the tile, the list \<^verbatim>\<open>tile.dynamicTechniqueHandlers\<close>, its local
  arrays \<^verbatim>\<open>materials\<close> and \<^verbatim>\<open>techniqueHandlers\<close> (indexed by technique index), and the calls
  made so far.
\<close>

record ('w, 'z, 'm) CreatorState =
  techniqueHandlerPool :: "('w, 'z) TechniqueHandlerPool"
  dynamicTechniqueHandlers :: "nat list"
  materials :: "nat \<Rightarrow> 'm option"
  localTechniqueHandlers :: "nat \<Rightarrow> nat option"
  trace :: "'m call list"

definition markCreated :: "int \<Rightarrow> TileGroup \<Rightarrow> TileGroup" where
  "markCreated tileOffset grp = grp\<lparr>createdOffsets := createdOffsets grp @ [tileOffset]\<rparr>"

text \<open>
  The inner loop (\<^verbatim>\<open>// compress consecutive groups\<close>) over the groups from \<^verbatim>\<open>groupIndex\<close> on.
  It returns \<^verbatim>\<open>count\<close>, the groups it has marked, and the groups from the final
  \<^verbatim>\<open>groupIndex\<close> on.
\<close>

fun compress ::
  "nat \<Rightarrow> int \<Rightarrow> int \<Rightarrow> int \<Rightarrow> TileGroup list \<Rightarrow> int \<times> TileGroup list \<times> TileGroup list"
where
  "compress techniqueIndex start0 count0 tileOffset [] = (count0, [], [])"
| "compress techniqueIndex start0 count0 tileOffset (nextGroup # rest) =
     (if technique nextGroup = techniqueIndex then
        (if start0 + count0 \<noteq> start nextGroup then (count0, [], nextGroup # rest)
         else
           (case compress techniqueIndex start0 (count0 + count nextGroup) tileOffset rest of
              (count1, marked, remaining) \<Rightarrow>
                (count1, markCreated tileOffset nextGroup # marked, remaining)))
      else (count0, [], nextGroup # rest))"

lemma compress_remaining_length:
  "compress techniqueIndex start0 count0 tileOffset gs = (count1, marked, remaining) \<Longrightarrow>
   length remaining \<le> length gs"
proof (induction gs arbitrary: count0 count1 marked remaining)
  case Nil
  then show ?case by simp
next
  case (Cons g gs)
  show ?case
  proof (cases "technique g = techniqueIndex \<and> start0 + count0 = start g")
    case True
    obtain c m r where rec:
      "compress techniqueIndex start0 (count0 + count g) tileOffset gs = (c, m, r)"
      by (cases "compress techniqueIndex start0 (count0 + count g) tileOffset gs")
    from Cons.IH [OF rec] have "length r \<le> length gs" .
    moreover from Cons.prems True rec have "remaining = r" by simp
    ultimately show ?thesis by simp
  next
    case False
    with Cons.prems show ?thesis by (auto split: if_splits)
  qed
qed

text \<open>
  The body of the outer loop after the merge, for a technique and its merged group. It
  returns the new state and the exception thrown, if any. The objects that
  \<^verbatim>\<open>createObject\<close> returns and their registration on the tile are not modelled: the call is
  recorded. \<^verbatim>\<open>isDynamic\<close> is read from the handler that the reference names among the
  constructed handlers (a reference that the pool returns names one, see
  \<open>getTechniqueHandler_allocated\<close> below).
\<close>

definition handleMergedGroup ::
  "('w, 'z, 'm) CreatorInput \<Rightarrow> Technique \<Rightarrow> Group \<Rightarrow> ('w, 'z, 'm) CreatorState \<Rightarrow>
   ('w, 'z, 'm) CreatorState \<times> error option"
where
  "handleMergedGroup inp tech mergedGroup st =
     (let techniqueIndex = technique mergedGroup;
          hasTechniqueHandler =
            (localTechniqueHandlers st techniqueIndex \<noteq> None \<or>
             canHandle (registeredHandlers inp) tech)
      in
        if hasTechniqueHandler then
          (case (case localTechniqueHandlers st techniqueIndex of
                   Some techniqueHandler \<Rightarrow> Inr (techniqueHandler, st)
                 | None \<Rightarrow>
                     (let st1 = st\<lparr>trace := trace st @ [PoolRequest techniqueIndex]\<rparr>
                      in case getTechniqueHandler (registeredHandlers inp) tech (currentTile inp)
                                (techniqueUpdateContext inp) (techniqueHandlerPool st1) of
                           Inl e \<Rightarrow> Inl (st1, e)
                         | Inr (techniqueHandler, pool1) \<Rightarrow>
                             Inr (techniqueHandler, st1\<lparr>techniqueHandlerPool := pool1\<rparr>))) of
             Inl (st1, e) \<Rightarrow> (st1, Some e)
           | Inr (techniqueHandler, st1) \<Rightarrow>
               (let st2 = st1\<lparr>trace := trace st1 @ [CreateObject techniqueHandler mergedGroup]\<rparr>;
                    st3 = (if isDynamic (allocated (techniqueHandlerPool st2) ! techniqueHandler)
                           then st2\<lparr>dynamicTechniqueHandlers :=
                                     dynamicTechniqueHandlers st2 @ [techniqueHandler]\<rparr>
                           else st2)
                in (st3, None)))
        else if \<not> getObjectConstructor inp tech then (st, None)
        else
          (case materials st techniqueIndex of
             Some material \<Rightarrow>
               (st\<lparr>trace := trace st @ [NewObject material mergedGroup]\<rparr>, None)
           | None \<Rightarrow>
               (case createMaterial inp tech of
                  None \<Rightarrow> (st, None)
                | Some material \<Rightarrow>
                    (st\<lparr>materials := (materials st)(techniqueIndex \<mapsto> material),
                        trace := trace st @ [NewObject material mergedGroup]\<rparr>, None))))"

text \<open>
  The second and third disjunct of the test that skips a group:
  \<^verbatim>\<open>technique.enabled === false || (techniqueFilter !== undefined && !techniqueFilter(technique))\<close>.
\<close>

definition rejected :: "('w, 'z, 'm) CreatorInput \<Rightarrow> Technique \<Rightarrow> bool" where
  "rejected inp tech =
     (enabled tech = Some False \<or>
      (case techniqueFilter inp of Some f \<Rightarrow> \<not> f tech | None \<Rightarrow> False))"

text \<open>
  The outer loop over the groups of one geometry, from \<^verbatim>\<open>groupIndex\<close> on. It returns the
  groups as the loop leaves them, the new state and the exception thrown, if any;
  \<^verbatim>\<open>decodedTile.techniques[techniqueIndex]\<close> is \<^verbatim>\<open>undefined\<close> beyond the array, and reading
  \<^verbatim>\<open>enabled\<close> of it throws.
\<close>

function processGroups ::
  "('w, 'z, 'm) CreatorInput \<Rightarrow> Technique list \<Rightarrow> ('w, 'z, 'm) CreatorState \<Rightarrow> TileGroup list \<Rightarrow>
   TileGroup list \<times> ('w, 'z, 'm) CreatorState \<times> error option"
where
  "processGroups inp techs st [] = ([], st, None)"
| "processGroups inp techs st (grp # rest) =
     (if offset (currentTile inp) \<in> set (createdOffsets grp) then
        (case processGroups inp techs st rest of
           (rest', st', e) \<Rightarrow> (grp # rest', st', e))
      else if length techs \<le> technique grp then (grp # rest, st, Some TypeError)
      else if rejected inp (techs ! technique grp) then
        (case processGroups inp techs st rest of
           (rest', st', e) \<Rightarrow> (grp # rest', st', e))
      else
        (case compress (technique grp) (start grp) (count grp) (offset (currentTile inp)) rest of
           (count1, marked, remaining) \<Rightarrow>
             (let mergedGroup = \<lparr>start = start grp, count = count1, technique = technique grp\<rparr>
              in case handleMergedGroup inp (techs ! technique grp) mergedGroup st of
                   (st1, Some e) \<Rightarrow>
                     (markCreated (offset (currentTile inp)) grp # marked @ remaining, st1, Some e)
                 | (st1, None) \<Rightarrow>
                     (case processGroups inp techs st1 remaining of
                        (remaining', st2, e) \<Rightarrow>
                          (markCreated (offset (currentTile inp)) grp # marked @ remaining', st2, e)))))"
  by pat_completeness auto
termination
  apply (relation "measure (\<lambda>(inp, techs, st, gs). length gs)")
     apply simp_all
  apply (metis compress_remaining_length le_imp_less_Suc)
  done


text \<open>The loop over the geometries of the decoded tile.\<close>

fun processGeometries ::
  "('w, 'z, 'm) CreatorInput \<Rightarrow> Technique list \<Rightarrow> ('w, 'z, 'm) CreatorState \<Rightarrow> Geometry list \<Rightarrow>
   Geometry list \<times> ('w, 'z, 'm) CreatorState \<times> error option"
where
  "processGeometries inp techs st [] = ([], st, None)"
| "processGeometries inp techs st (srcGeometry # rest) =
     (case processGroups inp techs st (groups srcGeometry) of
        (groups', st1, Some e) \<Rightarrow> (srcGeometry\<lparr>groups := groups'\<rparr> # rest, st1, Some e)
      | (groups', st1, None) \<Rightarrow>
          (case processGeometries inp techs st1 rest of
             (rest', st2, e) \<Rightarrow> (srcGeometry\<lparr>groups := groups'\<rparr> # rest', st2, e)))"

text \<open>
  \<^verbatim>\<open>createObjects(tile, decodedTile, techniqueFilter)\<close>, given the pool of the tile and its
  list of dynamic handlers: the local arrays start empty.
\<close>

definition createObjects ::
  "('w, 'z, 'm) CreatorInput \<Rightarrow> DecodedTile \<Rightarrow> ('w, 'z) TechniqueHandlerPool \<Rightarrow> nat list \<Rightarrow>
   DecodedTile \<times> ('w, 'z, 'm) CreatorState \<times> error option"
where
  "createObjects inp decodedTile pool0 dynamic0 =
     (let st0 = \<lparr>techniqueHandlerPool = pool0, dynamicTechniqueHandlers = dynamic0,
                  materials = (\<lambda>techniqueIndex. None),
                  localTechniqueHandlers = (\<lambda>techniqueIndex. None), trace = []\<rparr>
      in case processGeometries inp (techniques decodedTile) st0 (geometries decodedTile) of
           (geometries', st', e) \<Rightarrow> (decodedTile\<lparr>geometries := geometries'\<rparr>, st', e))"

subsection \<open>Groups merged and groups marked\<close>

text \<open>
  The run of groups that the specification merges with a group: the groups that follow
  it for as long as each has the same technique index and starts where the one before
  it ends.
\<close>

fun contiguousRun :: "nat \<Rightarrow> int \<Rightarrow> TileGroup list \<Rightarrow> TileGroup list" where
  "contiguousRun techniqueIndex end0 [] = []"
| "contiguousRun techniqueIndex end0 (nextGroup # rest) =
     (if technique nextGroup = techniqueIndex \<and> start nextGroup = end0
      then nextGroup # contiguousRun techniqueIndex (start nextGroup + count nextGroup) rest
      else [])"

text \<open>
  The invariant of the marks of one tile offset: a group that is marked, has the technique
  index of the group before it and starts where that group ends, has that group marked
  too.
\<close>

fun chained :: "int \<Rightarrow> TileGroup list \<Rightarrow> bool" where
  "chained tileOffset [] = True"
| "chained tileOffset [g] = True"
| "chained tileOffset (g # nextGroup # rest) =
     ((technique nextGroup = technique g \<and> start nextGroup = start g + count g \<and>
       tileOffset \<in> set (createdOffsets nextGroup) \<longrightarrow> tileOffset \<in> set (createdOffsets g)) \<and>
      chained tileOffset (nextGroup # rest))"

text \<open>
  The groups of a geometry after a sequence of runs of the group loop, each for some
  tile, filter, technique array and state.
\<close>

fun groupsAfter ::
  "(('w, 'z, 'm) CreatorInput \<times> Technique list \<times> ('w, 'z, 'm) CreatorState) list \<Rightarrow>
   TileGroup list \<Rightarrow> TileGroup list"
where
  "groupsAfter [] gs = gs"
| "groupsAfter ((inp, techs, st) # passes) gs =
     groupsAfter passes (fst (processGroups inp techs st gs))"

text \<open>What a run for a tile offset may do to a group: nothing, or mark it if it was not marked.\<close>

definition keptOrMarked :: "int \<Rightarrow> TileGroup \<Rightarrow> TileGroup \<Rightarrow> bool" where
  "keptOrMarked tileOffset g g' =
     (g' = g \<or> (tileOffset \<notin> set (createdOffsets g) \<and> g' = markCreated tileOffset g))"

text \<open>The invariant of the marks: chained for every tile offset, and no offset twice.\<close>

definition consistentMarks :: "TileGroup list \<Rightarrow> bool" where
  "consistentMarks gs =
     ((\<forall>off. chained off gs) \<and> (\<forall>g \<in> set gs. distinct (createdOffsets g)))"

text \<open>
  A call that creates an object for a merged group which starts with a group of \<open>gs\<close>
  that is not marked for the tile offset (a request to the pool creates no object).
\<close>

fun ledByUnmarked :: "int \<Rightarrow> TileGroup list \<Rightarrow> 'm call \<Rightarrow> bool" where
  "ledByUnmarked tileOffset gs (PoolRequest techniqueIndex) = True"
| "ledByUnmarked tileOffset gs (CreateObject techniqueHandler mergedGroup) =
     (\<exists>g \<in> set gs. tileOffset \<notin> set (createdOffsets g) \<and>
        start mergedGroup = start g \<and> technique mergedGroup = technique g)"
| "ledByUnmarked tileOffset gs (NewObject material mergedGroup) =
     (\<exists>g \<in> set gs. tileOffset \<notin> set (createdOffsets g) \<and>
        start mergedGroup = start g \<and> technique mergedGroup = technique g)"

subsection \<open>Materials, objects and \<^verbatim>\<open>updateBaseColor\<close>\<close>

text \<open>
  A technique attribute is a constant or an expression that is evaluated against an
  environment. The attributes of a technique are looked up by property name; an absent
  property is \<^verbatim>\<open>undefined\<close> (\<open>None\<close>).
\<close>

datatype attr = Constant number | Expr "Env \<Rightarrow> number"

type_synonym TechniqueAttrs = "string \<Rightarrow> attr option"

text \<open>
  Modelled from the spec: \<^verbatim>\<open>getPropertyValue\<close> of the datasource protocol, which is not among
  the sources; the specification gives it as
  \<^verbatim>\<open>evaluate(expression-or-constant, env) -> value\<close>. On an absent attribute it returns
  \<^verbatim>\<open>undefined\<close>, which is \<open>NaN\<close> in the products that the callers below form.
\<close>

fun getPropertyValue :: "attr option \<Rightarrow> Env \<Rightarrow> number" where
  "getPropertyValue None e = NaN"
| "getPropertyValue (Some (Constant v)) e = v"
| "getPropertyValue (Some (Expr f)) e = f e"

text \<open>
  What the embedded functions read and write of a material (\<^verbatim>\<open>opacity\<close> is compared with
  \<^verbatim>\<open>undefined\<close> in \<^verbatim>\<open>updateSecondaryWidth\<close>).
\<close>

record Material =
  color :: number
  opacity :: "number option"
  lineWidth :: number
  outlineWidth :: number
  dashSize :: number
  gapSize :: number

text \<open>
  \<^verbatim>\<open>applyBaseColorToMaterial(material, material.color, technique, colorValue, env)\<close> of
  \<^verbatim>\<open>DecodedTileHelpers\<close> is not among the sources. It changes the material it is given and
  nothing else, so it is a parameter of this type: the material after the call.
\<close>

type_synonym ApplyBaseColor = "Material \<Rightarrow> TechniqueAttrs \<Rightarrow> attr option \<Rightarrow> Env \<Rightarrow> Material"

text \<open>
  An object of the scene: its \<^verbatim>\<open>visible\<close> flag and the material it was constructed with,
  which for a mesh of a line handler is the handler's main or its secondary material.
  Geometry, render order, user data and render callbacks are not modelled.
\<close>

datatype materialRef = MainMaterial | SecondaryMaterial | OtherMaterial

record Object3D =
  visible :: bool
  material :: materialRef

text \<open>\<^verbatim>\<open>interface TileObjectEntry\<close>: references to an object and to a tile.\<close>

record TileObjectEntry =
  object :: nat
  tile :: nat

text \<open>
  The objects and tiles that handlers share with the rest of the program:
  \<open>objects\<close> maps a reference to the object, and \<open>objectCount\<close> is the next free
  reference; \<open>tiles\<close> maps a reference to the tile, and \<open>tileObjects\<close> to the array
  \<^verbatim>\<open>tile.objects\<close>.
\<close>

record Scene =
  objects :: "nat \<Rightarrow> Object3D"
  objectCount :: nat
  tiles :: "nat \<Rightarrow> Tile"
  tileObjects :: "nat \<Rightarrow> nat list"

text \<open>
  The loop that the colour updaters share:
  \<^verbatim>\<open>for (const entry of objects) { if (entry.tile.frameNumLastVisible === context.frameNumber)
  { entry.object.visible = material.opacity > 0; } }\<close>
\<close>

fun setVisibleInFrame :: "TileObjectEntry list \<Rightarrow> int \<Rightarrow> bool \<Rightarrow> Scene \<Rightarrow> Scene" where
  "setVisibleInFrame [] frame v scene = scene"
| "setVisibleInFrame (entry # rest) frame v scene =
     setVisibleInFrame rest frame v
       (if frameNumLastVisible (tiles scene (tile entry)) = frame
        then scene\<lparr>objects := (objects scene)
                 (object entry := (objects scene (object entry))\<lparr>visible := v\<rparr>)\<rparr>
        else scene)"

text \<open>
  \<^verbatim>\<open>TechniqueHandlerCommon.updateBaseColor(material, objects, technique, context)\<close>: the
  material after the call and the scene after the call.
\<close>

definition updateBaseColor ::
  "ApplyBaseColor \<Rightarrow> Material \<Rightarrow> TileObjectEntry list \<Rightarrow> TechniqueAttrs \<Rightarrow>
   TechniqueUpdateContext \<Rightarrow> Scene \<Rightarrow> Material \<times> Scene"
where
  "updateBaseColor applyBaseColorToMaterial mat entries tech context scene =
     (let lastOpacity = opacity mat;
          mat' = applyBaseColorToMaterial mat tech (tech ''color'') (env context)
      in if \<not> strictEq lastOpacity (opacity mat')
         then (mat', setVisibleInFrame entries (frameNumber context)
                       (greaterZero (opacity mat')) scene)
         else (mat', scene))"

subsection \<open>\<^verbatim>\<open>SolidLineTechniqueHandler\<close>\<close>

text \<open>
  The fields that the class adds to \<^verbatim>\<open>GenericTechniqueHandler\<close>. The updaters of a line
  handler act on these fields and on the scene. The constructor sets \<^verbatim>\<open>metricUnitIsPixel\<close>
  to \<^verbatim>\<open>technique.metricUnit === "Pixel"\<close> and leaves the two object lists empty.
\<close>

record SolidLineTechniqueHandler =
  handlerTechnique :: TechniqueAttrs
  mainMaterial :: Material
  secondaryMaterial :: "Material option"
  mainObjects :: "TileObjectEntry list"
  secondaryObjects :: "TileObjectEntry list"
  metricUnitIsPixel :: bool

text \<open>\<^verbatim>\<open>(context.env.lookup("$pixelToWorld") as number) ?? 1.0\<close>\<close>

definition getPixelToWorld :: "TechniqueUpdateContext \<Rightarrow> number" where
  "getPixelToWorld context =
     (case env context ''$pixelToWorld'' of Some ratio \<Rightarrow> ratio | None \<Rightarrow> Num 1)"

definition getUnitFactor :: "TechniqueUpdateContext \<Rightarrow> SolidLineTechniqueHandler \<Rightarrow> number" where
  "getUnitFactor context h = (if metricUnitIsPixel h then getPixelToWorld context else Num 1)"

definition updateLineWidth ::
  "TechniqueUpdateContext \<Rightarrow> SolidLineTechniqueHandler \<Rightarrow> SolidLineTechniqueHandler"
where
  "updateLineWidth context h =
     (let unitFactor = getUnitFactor context h
      in h\<lparr>mainMaterial := (mainMaterial h)
            \<lparr>lineWidth :=
               mul (mul (getPropertyValue (handlerTechnique h ''lineWidth'') (env context))
                        unitFactor) (Num 0.5)\<rparr>\<rparr>)"

definition updateOutlineWidth ::
  "TechniqueUpdateContext \<Rightarrow> SolidLineTechniqueHandler \<Rightarrow> SolidLineTechniqueHandler"
where
  "updateOutlineWidth context h =
     (let unitFactor = getUnitFactor context h
      in h\<lparr>mainMaterial := (mainMaterial h)
            \<lparr>outlineWidth :=
               mul (getPropertyValue (handlerTechnique h ''outlineWidth'') (env context))
                   unitFactor\<rparr>\<rparr>)"

definition updateDashSize ::
  "TechniqueUpdateContext \<Rightarrow> SolidLineTechniqueHandler \<Rightarrow> SolidLineTechniqueHandler"
where
  "updateDashSize context h =
     (let unitFactor = getUnitFactor context h
      in h\<lparr>mainMaterial := (mainMaterial h)
            \<lparr>dashSize :=
               mul (mul (getPropertyValue (handlerTechnique h ''dashSize'') (env context))
                        unitFactor) (Num 0.5)\<rparr>\<rparr>)"

definition updateGapSize ::
  "TechniqueUpdateContext \<Rightarrow> SolidLineTechniqueHandler \<Rightarrow> SolidLineTechniqueHandler"
where
  "updateGapSize context h =
     (let unitFactor = getUnitFactor context h
      in h\<lparr>mainMaterial := (mainMaterial h)
            \<lparr>gapSize :=
               mul (mul (getPropertyValue (handlerTechnique h ''gapSize'') (env context))
                        unitFactor) (Num 0.5)\<rparr>\<rparr>)"

text \<open>
  \<^verbatim>\<open>updateSecondaryWidth(context)\<close>; \<^verbatim>\<open>assert(this.secondaryMaterial !== undefined)\<close> throws
  when there is no secondary material.
\<close>

definition updateSecondaryWidth ::
  "TechniqueUpdateContext \<Rightarrow> SolidLineTechniqueHandler \<Rightarrow> error + SolidLineTechniqueHandler"
where
  "updateSecondaryWidth context h =
     (case secondaryMaterial h of
        None \<Rightarrow> Inl AssertionFailed
      | Some secondary \<Rightarrow>
          (let opacity0 = opacity (mainMaterial h);
               unitFactor = getUnitFactor context h;
               techniqueLineWidth = lineWidth (mainMaterial h);
               techniqueSecondaryWidth =
                 mul (mul (getPropertyValue (handlerTechnique h ''secondaryWidth'') (env context))
                          unitFactor) (Num 0.5);
               actualLineWidth =
                 (if lessEq techniqueSecondaryWidth techniqueLineWidth \<and>
                     (opacity0 = None \<or> opacity0 = Some (Num 1))
                  then Num 0 else techniqueSecondaryWidth)
           in Inr (h\<lparr>secondaryMaterial := Some (secondary\<lparr>lineWidth := actualLineWidth\<rparr>)\<rparr>)))"

text \<open>\<^verbatim>\<open>updateSecondaryColor(context)\<close>, on the handler and the scene.\<close>

definition updateSecondaryColor ::
  "ApplyBaseColor \<Rightarrow> TechniqueUpdateContext \<Rightarrow> SolidLineTechniqueHandler \<times> Scene \<Rightarrow>
   error + SolidLineTechniqueHandler \<times> Scene"
where
  "updateSecondaryColor applyBaseColorToMaterial context s =
     (case s of (h, scene) \<Rightarrow>
        (case secondaryMaterial h of
           None \<Rightarrow> Inl AssertionFailed
         | Some secondary \<Rightarrow>
             (let lastOpacity = opacity secondary;
                  secondary' = applyBaseColorToMaterial secondary (handlerTechnique h)
                                 (handlerTechnique h ''secondaryColor'') (env context);
                  h' = h\<lparr>secondaryMaterial := Some secondary'\<rparr>
              in if \<not> strictEq lastOpacity (opacity secondary')
                 then Inr (h', setVisibleInFrame (secondaryObjects h') (frameNumber context)
                                 (greaterZero (opacity secondary')) scene)
                 else Inr (h', scene))))"

text \<open>\<^verbatim>\<open>new THREE.Mesh(bufferGeometry, material)\<close>: a visible object under the next free reference.\<close>

definition newMesh :: "materialRef \<Rightarrow> Scene \<Rightarrow> nat \<times> Scene" where
  "newMesh m scene =
     (objectCount scene,
      scene\<lparr>objects := (objects scene)(objectCount scene := \<lparr>visible = True, material = m\<rparr>),
            objectCount := Suc (objectCount scene)\<rparr>)"

definition pushTileObject :: "nat \<Rightarrow> nat \<Rightarrow> Scene \<Rightarrow> Scene" where
  "pushTileObject tileRef obj scene =
     scene\<lparr>tileObjects := (tileObjects scene)(tileRef := tileObjects scene tileRef @ [obj])\<rparr>"

text \<open>
  \<^verbatim>\<open>createObject(tile, srcGeometry, group)\<close>: the objects returned, the handler and the scene.
  The geometry is not modelled, so the tile is the only argument; the clip-size callbacks
  (\<^verbatim>\<open>installTileSizeUpdaterIfNeeded\<close>) and the user data are left out.
\<close>

definition createObject ::
  "nat \<Rightarrow> SolidLineTechniqueHandler \<times> Scene \<Rightarrow> nat list \<times> SolidLineTechniqueHandler \<times> Scene"
where
  "createObject tileRef s =
     (case s of (h, scene) \<Rightarrow>
        (case newMesh MainMaterial scene of (mainObject, scene1) \<Rightarrow>
           (let scene2 = pushTileObject tileRef mainObject scene1;
                h1 = h\<lparr>mainObjects := mainObjects h @ [\<lparr>object = mainObject, tile = tileRef\<rparr>]\<rparr>
            in case secondaryMaterial h1 of
                 Some secondary \<Rightarrow>
                   (case newMesh SecondaryMaterial scene2 of (secondaryObject, scene3) \<Rightarrow>
                      (let scene4 = pushTileObject tileRef secondaryObject scene3;
                           h2 = h1\<lparr>secondaryObjects :=
                                     secondaryObjects h1 @ [\<lparr>object = mainObject, tile = tileRef\<rparr>]\<rparr>
                       in ([mainObject, secondaryObject], h2, scene4)))
               | None \<Rightarrow> ([mainObject], h1, scene2))))"

text \<open>
  The states of a line handler and the scene: the handler is constructed with empty object
  lists; then objects are created, the updaters run, and the rest of the program changes
  the scene, keeping the material of every object that exists.
\<close>

inductive reachableLine ::
  "ApplyBaseColor \<Rightarrow> SolidLineTechniqueHandler \<times> Scene \<Rightarrow> bool"
  for applyBaseColorToMaterial
where
  constructed:
    "mainObjects h = [] \<Longrightarrow> secondaryObjects h = [] \<Longrightarrow>
     reachableLine applyBaseColorToMaterial (h, scene)"
| created:
    "reachableLine applyBaseColorToMaterial s \<Longrightarrow> createObject tileRef s = (objs, s') \<Longrightarrow>
     reachableLine applyBaseColorToMaterial s'"
| secondaryColor:
    "reachableLine applyBaseColorToMaterial s \<Longrightarrow>
     updateSecondaryColor applyBaseColorToMaterial context s = Inr s' \<Longrightarrow>
     reachableLine applyBaseColorToMaterial s'"
| baseColor:
    "reachableLine applyBaseColorToMaterial (h, scene) \<Longrightarrow>
     updateBaseColor applyBaseColorToMaterial (mainMaterial h) (mainObjects h)
       (handlerTechnique h) context scene = (mat', scene') \<Longrightarrow>
     reachableLine applyBaseColorToMaterial (h\<lparr>mainMaterial := mat'\<rparr>, scene')"
| widths:
    "reachableLine applyBaseColorToMaterial (h, scene) \<Longrightarrow>
     h' = updateLineWidth context h \<or> h' = updateOutlineWidth context h \<or>
     h' = updateDashSize context h \<or> h' = updateGapSize context h \<or>
     updateSecondaryWidth context h = Inr h' \<Longrightarrow>
     reachableLine applyBaseColorToMaterial (h', scene)"
| outside:
    "reachableLine applyBaseColorToMaterial (h, scene) \<Longrightarrow>
     objectCount scene \<le> objectCount scene' \<Longrightarrow>
     \<forall>ref < objectCount scene. material (objects scene' ref) = material (objects scene ref) \<Longrightarrow>
     reachableLine applyBaseColorToMaterial (h, scene')"


text \<open>Every entry of the secondary list refers to an existing mesh with the main material.\<close>

definition secondaryEntriesMain :: "SolidLineTechniqueHandler \<times> Scene \<Rightarrow> bool" where
  "secondaryEntriesMain s =
     (case s of (h, scene) \<Rightarrow>
        \<forall>entry \<in> set (secondaryObjects h).
          object entry < objectCount scene \<and>
          material (objects scene (object entry)) = MainMaterial)"

subsection \<open>\<^verbatim>\<open>updateLineColor\<close> of the fill and extruded-polygon handlers\<close>

text \<open>
  The fields that \<^verbatim>\<open>FillTechniqueHandler\<close> adds to \<^verbatim>\<open>GenericTechniqueHandler\<close>. The fields
  \<^verbatim>\<open>technique\<close>, \<^verbatim>\<open>mainMaterial\<close> and \<^verbatim>\<open>mainObjects\<close>, which the line handler has too, carry
  the name of the class.
\<close>

record FillTechniqueHandler =
  fillTechnique :: TechniqueAttrs
  fillMainMaterial :: Material
  outlineMaterial :: "Material option"
  fillMainObjects :: "TileObjectEntry list"
  outlineObjects :: "TileObjectEntry list"

text \<open>
  \<^verbatim>\<open>FillTechniqueHandler.updateLineColor(context)\<close>, on the handler and the scene;
  \<^verbatim>\<open>assert(this.outlineMaterial !== undefined)\<close> throws when there is no outline material.
\<close>

definition updateLineColor_Fill ::
  "ApplyBaseColor \<Rightarrow> TechniqueUpdateContext \<Rightarrow> FillTechniqueHandler \<times> Scene \<Rightarrow>
   error + FillTechniqueHandler \<times> Scene"
where
  "updateLineColor_Fill applyBaseColorToMaterial context s =
     (case s of (h, scene) \<Rightarrow>
        (case outlineMaterial h of
           None \<Rightarrow> Inl AssertionFailed
         | Some outline \<Rightarrow>
             (let lastOpacity = opacity outline;
                  outline' = applyBaseColorToMaterial outline (fillTechnique h)
                               (fillTechnique h ''lineColor'') (env context);
                  h' = h\<lparr>outlineMaterial := Some outline'\<rparr>
              in if \<not> strictEq lastOpacity (opacity outline')
                 then Inr (h', setVisibleInFrame (outlineObjects h') (frameNumber context)
                                 (greaterZero (opacity outline')) scene)
                 else Inr (h', scene))))"

text \<open>
  The fields of \<^verbatim>\<open>ExtrudedPolygonTechniqueHandler\<close>, named in the same way.
\<close>

record ExtrudedPolygonTechniqueHandler =
  extrudedTechnique :: TechniqueAttrs
  extrudedMainMaterial :: Material
  edgeMaterial :: "Material option"
  extrudedMainObjects :: "TileObjectEntry list"
  edgeObjects :: "TileObjectEntry list"
  extrusionAnimationEnabled :: bool
  extrusionAnimationDuration :: "number option"

text \<open>
  \<^verbatim>\<open>ExtrudedPolygonTechniqueHandler.updateLineColor(context)\<close>;
  \<^verbatim>\<open>assert(this.edgeMaterial !== undefined)\<close> throws when there is no edge material.
\<close>

definition updateLineColor_ExtrudedPolygon ::
  "ApplyBaseColor \<Rightarrow> TechniqueUpdateContext \<Rightarrow> ExtrudedPolygonTechniqueHandler \<times> Scene \<Rightarrow>
   error + ExtrudedPolygonTechniqueHandler \<times> Scene"
where
  "updateLineColor_ExtrudedPolygon applyBaseColorToMaterial context s =
     (case s of (h, scene) \<Rightarrow>
        (case edgeMaterial h of
           None \<Rightarrow> Inl AssertionFailed
         | Some edge \<Rightarrow>
             (let lastOpacity = opacity edge;
                  edge' = applyBaseColorToMaterial edge (extrudedTechnique h)
                            (extrudedTechnique h ''lineColor'') (env context);
                  h' = h\<lparr>edgeMaterial := Some edge'\<rparr>
              in if \<not> strictEq lastOpacity (opacity edge')
                 then Inr (h', setVisibleInFrame (edgeObjects h') (frameNumber context)
                                 (greaterZero (opacity edge')) scene)
                 else Inr (h', scene))))"

text \<open>
  The visibility rule of the specification, for the list of entries that an updater is
  bound to, the frame number of the update, the opacity of the material after the
  update, and the scene before and after it: the object of every entry whose tile was
  last visible in that frame has \<^verbatim>\<open>visible\<close> equal to \<open>opacity > 0\<close>; an object none of whose
  entries has such a tile is as it was; and where every object has one entry, the object
  of every entry whose tile was last visible in another frame keeps its \<^verbatim>\<open>visible\<close> flag.
\<close>

definition visibilityRule ::
  "TileObjectEntry list \<Rightarrow> int \<Rightarrow> number option \<Rightarrow> Scene \<Rightarrow> Scene \<Rightarrow> bool"
where
  "visibilityRule entries frame newOpacity scene scene' =
     ((\<forall>entry \<in> set entries.
         frameNumLastVisible (tiles scene (tile entry)) = frame \<longrightarrow>
         visible (objects scene' (object entry)) = greaterZero newOpacity) \<and>
      (\<forall>ref. (\<forall>entry \<in> set entries. object entry = ref \<longrightarrow>
                frameNumLastVisible (tiles scene (tile entry)) \<noteq> frame) \<longrightarrow>
             objects scene' ref = objects scene ref) \<and>
      (distinct (map object entries) \<longrightarrow>
         (\<forall>entry \<in> set entries.
            frameNumLastVisible (tiles scene (tile entry)) \<noteq> frame \<longrightarrow>
            visible (objects scene' (object entry)) = visible (objects scene (object entry)))))"

subsection \<open>Example data\<close>

text \<open>A registry with a constructor of shareable handlers and one of private, dynamic handlers.\<close>

definition shareableCtor :: "(unit, unit) TechniqueHandlerContstructor" where
  "shareableCtor tech atile c = newGenericTechniqueHandler"

definition privateCtor :: "(unit, unit) TechniqueHandlerContstructor" where
  "privateCtor tech atile c =
     newGenericTechniqueHandler\<lparr>isShareableAcrossTiles := False, updaters := [\<lambda>c w. w]\<rparr>"

definition emptyPool :: "(unit, unit) TechniqueHandlerPool" where
  "emptyPool = \<lparr>pool = Map.empty, allocated = []\<rparr>"

definition exampleRegistry :: "(unit, unit) techniqueHandlers" where
  "exampleRegistry =
     [''fill'' \<mapsto> shareableCtor, ''solid-line'' \<mapsto> shareableCtor,
      ''extruded-polygon'' \<mapsto> privateCtor]"

definition exampleInput :: "(unit, unit, nat) CreatorInput" where
  "exampleInput =
     \<lparr>registeredHandlers = exampleRegistry,
      currentTile = \<lparr>offset = 0, frameNumLastVisible = 0\<rparr>,
      techniqueUpdateContext = \<lparr>env = (\<lambda>n. None), frameNumber = 1\<rparr>,
      techniqueFilter = Some (\<lambda>t. enabled t \<noteq> Some False),
      getObjectConstructor = (\<lambda>t. False),
      createMaterial = (\<lambda>t. None)\<rparr>"

text \<open>
  The groups of the specification's merging example, two techniques with registered
  handlers, and the state in which \<^verbatim>\<open>createObjects\<close> starts on an empty pool.
\<close>

definition exampleState :: "(unit, unit, nat) CreatorState" where
  "exampleState =
     \<lparr>techniqueHandlerPool = emptyPool, dynamicTechniqueHandlers = [],
      materials = (\<lambda>techniqueIndex. None),
      localTechniqueHandlers = (\<lambda>techniqueIndex. None), trace = []\<rparr>"

definition exampleGroups :: "TileGroup list" where
  "exampleGroups =
     [\<lparr>start = 0, count = 5, technique = 0, createdOffsets = []\<rparr>,
      \<lparr>start = 5, count = 3, technique = 0, createdOffsets = []\<rparr>,
      \<lparr>start = 8, count = 2, technique = 1, createdOffsets = []\<rparr>]"

definition exampleTechniques :: "Technique list" where
  "exampleTechniques =
     [\<lparr>name = ''fill'', key = ''fill-0'', enabled = Some True\<rparr>,
      \<lparr>name = ''solid-line'', key = ''line-1'', enabled = Some True\<rparr>]"

definition exampleTile :: DecodedTile where
  "exampleTile = \<lparr>techniques = exampleTechniques, geometries = [\<lparr>groups = exampleGroups\<rparr>]\<rparr>"

text \<open>
  A decoded tile with two groups of one technique index that are not contiguous, of a
  technique whose handlers are private.
\<close>

definition repeatedTechniqueTile :: DecodedTile where
  "repeatedTechniqueTile =
     \<lparr>techniques = [\<lparr>name = ''extruded-polygon'', key = ''ep-0'', enabled = Some True\<rparr>],
      geometries =
        [\<lparr>groups =
            [\<lparr>start = 0, count = 5, technique = 0, createdOffsets = []\<rparr>,
             \<lparr>start = 7, count = 3, technique = 0, createdOffsets = []\<rparr>]\<rparr>]\<rparr>"


text \<open>
  A line technique in pixels, a context with a pixel-to-world ratio, a material, a
  scene whose tile \<open>0\<close> was last visible in frame \<open>5\<close> and whose other tiles in frame
  \<open>4\<close>, and a colour function that makes a material transparent.
\<close>

definition exampleLine :: TechniqueAttrs where
  "exampleLine = [''lineWidth'' \<mapsto> Constant (Num 10), ''secondaryWidth'' \<mapsto> Constant (Num 8)]"

definition pixelContext :: TechniqueUpdateContext where
  "pixelContext = \<lparr>env = [''$pixelToWorld'' \<mapsto> Num 0.02], frameNumber = 5\<rparr>"

definition exampleMaterial :: Material where
  "exampleMaterial =
     \<lparr>color = Num 0, opacity = Some (Num 1), lineWidth = Num 1, outlineWidth = Num 0,
      dashSize = Num 1, gapSize = Num 1\<rparr>"

definition exampleScene :: Scene where
  "exampleScene =
     \<lparr>objects = (\<lambda>ref. \<lparr>visible = True, material = OtherMaterial\<rparr>),
      objectCount = 0,
      tiles = (\<lambda>ref. \<lparr>offset = 0, frameNumLastVisible = (if ref = 0 then 5 else 4)\<rparr>),
      tileObjects = (\<lambda>ref. [])\<rparr>"

definition fadeOut :: ApplyBaseColor where
  "fadeOut mat tech colorValue e = mat\<lparr>opacity := Some (Num 0)\<rparr>"

definition exampleLineHandler :: SolidLineTechniqueHandler where
  "exampleLineHandler =
     \<lparr>handlerTechnique = exampleLine, mainMaterial = exampleMaterial,
      secondaryMaterial = Some exampleMaterial, mainObjects = [], secondaryObjects = [],
      metricUnitIsPixel = True\<rparr>"

text \<open>
  Two entries, of a tile last visible in frame \<open>5\<close> and of one last visible in frame
  \<open>4\<close>, and a fill handler and an extruded-polygon handler that hold them.
\<close>

definition exampleEntries :: "TileObjectEntry list" where
  "exampleEntries = [\<lparr>object = 0, tile = 0\<rparr>, \<lparr>object = 1, tile = 1\<rparr>]"

definition exampleFillHandler :: FillTechniqueHandler where
  "exampleFillHandler =
     \<lparr>fillTechnique = exampleLine, fillMainMaterial = exampleMaterial,
      outlineMaterial = Some exampleMaterial, fillMainObjects = [],
      outlineObjects = exampleEntries\<rparr>"

definition exampleExtrudedHandler :: ExtrudedPolygonTechniqueHandler where
  "exampleExtrudedHandler =
     \<lparr>extrudedTechnique = exampleLine, extrudedMainMaterial = exampleMaterial,
      edgeMaterial = Some exampleMaterial, extrudedMainObjects = [],
      edgeObjects = exampleEntries, extrusionAnimationEnabled = False,
      extrusionAnimationDuration = None\<rparr>"

section \<open>Properties\<close>

subsection \<open>Per-frame update\<close>

lemma runUpdaters_foldl:
  "runUpdaters context us w = foldl (\<lambda>s updater. updater context s) w us"
  by (induction us arbitrary: w) simp_all

lemma update_same_frame:
  "frameNumber context = lastUpdateFrameNumber h \<Longrightarrow> update context (h, w) = (h, w)"
  by (simp add: update_def)

lemma update_other_frame:
  "frameNumber context \<noteq> lastUpdateFrameNumber h \<Longrightarrow>
   update context (h, w) =
     (h\<lparr>lastUpdateFrameNumber := frameNumber context\<rparr>,
      foldl (\<lambda>s updater. updater context s) w (updaters h))"
  by (simp add: update_def Let_def runUpdaters_foldl)

lemma update_records_frame:
  "lastUpdateFrameNumber (fst (update context s)) = frameNumber context"
  by (cases s) (simp add: update_def Let_def)

text \<open>
  C1: a second call of \<open>update\<close> with the frame number of the first (whatever else its
  context holds) changes neither the handler nor the state the updaters act on, so the
  updaters run on the first call only; a call whose frame number is not the recorded one
  applies every updater, in the order of registration, and leaves that frame number
  recorded. (The code writes the frame number before the loop; the updaters cannot
  read the private field, so the state after the call is the same.)
\<close>

theorem update_once_per_frame:
  "(frameNumber context' = frameNumber context \<longrightarrow>
      update context' (update context (h, w)) = update context (h, w)) \<and>
   (frameNumber context \<noteq> lastUpdateFrameNumber h \<longrightarrow>
      update context (h, w) =
        (h\<lparr>lastUpdateFrameNumber := frameNumber context\<rparr>,
         foldl (\<lambda>s updater. updater context s) w (updaters h)))"
proof (intro conjI impI)
  assume same: "frameNumber context' = frameNumber context"
  obtain h1 w1 where first: "update context (h, w) = (h1, w1)"
    by (cases "update context (h, w)")
  have "lastUpdateFrameNumber h1 = frameNumber context"
    using update_records_frame [of "context" "(h, w)"] first by simp
  with same have "update context' (h1, w1) = (h1, w1)"
    by (simp add: update_same_frame)
  with first show "update context' (update context (h, w)) = update context (h, w)"
    by simp
next
  assume "frameNumber context \<noteq> lastUpdateFrameNumber h"
  then show "update context (h, w) =
        (h\<lparr>lastUpdateFrameNumber := frameNumber context\<rparr>,
         foldl (\<lambda>s updater. updater context s) w (updaters h))"
    by (rule update_other_frame)
qed

theorem update_once_per_frame_witness:
  "update \<lparr>env = (\<lambda>n. None), frameNumber = 7\<rparr>
     (update \<lparr>env = (\<lambda>n. Some (Num 2)), frameNumber = 7\<rparr>
        (\<lparr>isShareableAcrossTiles = True,
          updaters = [\<lambda>c x. x + 1, \<lambda>c x. x * frameNumber c],
          lastUpdateFrameNumber = -1\<rparr>, 3 :: int))
   = (\<lparr>isShareableAcrossTiles = True,
        updaters = [\<lambda>c x. x + 1, \<lambda>c x. x * frameNumber c],
        lastUpdateFrameNumber = 7\<rparr>, 28)"
  using update_once_per_frame
    [of "\<lparr>env = (\<lambda>n. None), frameNumber = 7\<rparr>"
        "\<lparr>env = (\<lambda>n. Some (Num 2)), frameNumber = 7\<rparr>"
        "\<lparr>isShareableAcrossTiles = True,
          updaters = [\<lambda>c x. x + 1, \<lambda>c x. x * frameNumber c],
          lastUpdateFrameNumber = -1\<rparr>" "3 :: int"]
  by (simp add: update_def)

text \<open>
  C10: the test is an equality test. A call with a frame number below the recorded one
  runs every updater and overwrites the recorded frame number with the older one, so
  going back to a frame number seen before runs the updaters once more.
\<close>

theorem update_older_frame_runs:
  "frameNumber context < lastUpdateFrameNumber h \<Longrightarrow>
   update context (h, w) =
     (h\<lparr>lastUpdateFrameNumber := frameNumber context\<rparr>,
      foldl (\<lambda>s updater. updater context s) w (updaters h)) \<and>
   lastUpdateFrameNumber (fst (update context (h, w))) < lastUpdateFrameNumber h"
  by (simp add: update_other_frame)

theorem update_older_frame_runs_witness:
  "update \<lparr>env = (\<lambda>n. None), frameNumber = 4\<rparr>
     (\<lparr>isShareableAcrossTiles = True,
       updaters = [\<lambda>c x. x + 1, \<lambda>c x. x * 2],
       lastUpdateFrameNumber = 9\<rparr>, 3 :: int)
   = (\<lparr>isShareableAcrossTiles = True,
        updaters = [\<lambda>c x. x + 1, \<lambda>c x. x * 2],
        lastUpdateFrameNumber = 4\<rparr>, 8)"
  using update_older_frame_runs
    [of "\<lparr>env = (\<lambda>n. None), frameNumber = 4\<rparr>"
        "\<lparr>isShareableAcrossTiles = True,
          updaters = [\<lambda>c x. x + 1, \<lambda>c x. x * 2],
          lastUpdateFrameNumber = 9\<rparr>" "3 :: int"]
  by (simp add: update_def)

subsection \<open>Pool\<close>

lemma getTechniqueHandler_pooled:
  "pool st (key tech) = Some handler \<Longrightarrow>
   getTechniqueHandler registry tech atile context st = Inr (handler, st)"
  by (simp add: getTechniqueHandler_def)

lemma getTechniqueHandler_shareable:
  assumes "pool st (key tech) = None"
    and "registry (name tech) = Some ctor"
    and "isShareableAcrossTiles (ctor tech atile context)"
  shows "getTechniqueHandler registry tech atile context st =
     Inr (length (allocated st),
          st\<lparr>allocated := allocated st @ [ctor tech atile context],
             pool := (pool st)(key tech \<mapsto> length (allocated st))\<rparr>)"
  using assms by (simp add: getTechniqueHandler_def Let_def)

lemma getTechniqueHandler_private:
  assumes "pool st (key tech) = None"
    and "registry (name tech) = Some ctor"
    and "\<not> isShareableAcrossTiles (ctor tech atile context)"
  shows "getTechniqueHandler registry tech atile context st =
     Inr (length (allocated st), st\<lparr>allocated := allocated st @ [ctor tech atile context]\<rparr>)"
  using assms by (simp add: getTechniqueHandler_def Let_def)

text \<open>The reference that the pool returns names a constructed handler.\<close>

lemma getTechniqueHandler_allocated:
  assumes "pooledAllocated st"
    and "getTechniqueHandler registry tech atile context st = Inr (handler, st')"
  shows "handler < length (allocated st') \<and> pooledAllocated st'"
proof (cases "pool st (key tech)")
  case (Some pooled)
  with assms have "handler = pooled" "st' = st"
    by (simp_all add: getTechniqueHandler_def)
  moreover from Some have "pooled \<in> ran (pool st)"
    by (auto simp: ran_def)
  ultimately show ?thesis
    using assms(1) by (simp add: pooledAllocated_def)
next
  case None
  then obtain ctor where ctor: "registry (name tech) = Some ctor"
    using assms(2) by (cases "registry (name tech)") (simp_all add: getTechniqueHandler_def)
  have ran: "ran ((pool st)(key tech \<mapsto> length (allocated st))) =
      insert (length (allocated st)) (ran (pool st))"
    using None by simp
  from None ctor assms(2) have "handler = length (allocated st)"
    by (auto simp: getTechniqueHandler_def Let_def split: if_splits)
  moreover from None ctor assms(2) have
    "st' = st\<lparr>allocated := allocated st @ [ctor tech atile context],
               pool := (pool st)(key tech \<mapsto> length (allocated st))\<rparr> \<or>
     st' = st\<lparr>allocated := allocated st @ [ctor tech atile context]\<rparr>"
    by (auto simp: getTechniqueHandler_def Let_def split: if_splits)
  ultimately show ?thesis
    using assms(1) ran by (auto simp: pooledAllocated_def less_Suc_eq)
qed

text \<open>A constructed handler that is not in the pool stays out of it.\<close>

lemma getTechniqueHandler_keeps_out:
  assumes "r < length (allocated st)" and "r \<notin> ran (pool st)"
    and "getTechniqueHandler registry tech atile context st = Inr (handler, st')"
  shows "r < length (allocated st') \<and> r \<notin> ran (pool st')"
proof (cases "pool st (key tech)")
  case (Some pooled)
  with assms show ?thesis by (simp add: getTechniqueHandler_def)
next
  case None
  then obtain ctor where ctor: "registry (name tech) = Some ctor"
    using assms(3) by (cases "registry (name tech)") (simp_all add: getTechniqueHandler_def)
  show ?thesis
  proof (cases "isShareableAcrossTiles (ctor tech atile context)")
    case True
    have "getTechniqueHandler registry tech atile context st =
        Inr (length (allocated st),
             st\<lparr>allocated := allocated st @ [ctor tech atile context],
                pool := (pool st)(key tech \<mapsto> length (allocated st))\<rparr>)"
      using None ctor True by (rule getTechniqueHandler_shareable)
    with assms(3)
    have st': "st' = st\<lparr>allocated := allocated st @ [ctor tech atile context],
             pool := (pool st)(key tech \<mapsto> length (allocated st))\<rparr>"
      by auto
    have "ran ((pool st)(key tech \<mapsto> length (allocated st))) =
        insert (length (allocated st)) (ran (pool st))"
      using None by simp
    with assms(1,2) st' show ?thesis by auto
  next
    case False
    have "getTechniqueHandler registry tech atile context st =
        Inr (length (allocated st),
             st\<lparr>allocated := allocated st @ [ctor tech atile context]\<rparr>)"
      using None ctor False by (rule getTechniqueHandler_private)
    with assms(3)
    have "st' = st\<lparr>allocated := allocated st @ [ctor tech atile context]\<rparr>"
      by auto
    with assms(1,2) show ?thesis by simp
  qed
qed

lemma poolCalls_keeps_out:
  "r < length (allocated st) \<Longrightarrow> r \<notin> ran (pool st) \<Longrightarrow>
   r < length (allocated (poolCalls registry cs st)) \<and>
   r \<notin> ran (pool (poolCalls registry cs st))"
proof (induction cs arbitrary: st)
  case Nil
  then show ?case by simp
next
  case (Cons c0 cs)
  show ?case
  proof (cases c0)
    case (GetTechniqueHandler tech atile c)
    show ?thesis
    proof (cases "getTechniqueHandler registry tech atile c st")
      case (Inl e)
      with Cons GetTechniqueHandler show ?thesis by simp
    next
      case (Inr res)
      obtain handler st' where res: "res = (handler, st')" by (cases res)
      from getTechniqueHandler_keeps_out [OF Cons.prems(1,2) Inr [unfolded res]]
      have "r < length (allocated st')" and "r \<notin> ran (pool st')" by simp_all
      from Cons.IH [OF this] Inr res GetTechniqueHandler show ?thesis by simp
    qed
  next
    case Reset
    have "r < length (allocated (reset st))" and "r \<notin> ran (pool (reset st))"
      using Cons.prems by (simp_all add: reset_def)
    from Cons.IH [OF this] Reset show ?thesis by simp
  qed
qed

text \<open>
  C2: take a key that the pool does not hold yet, and a first request whose technique
  has a registered constructor. If the handler constructed for it is shareable, it is put into
  the pool under the key, and a second request with that key, from any tile and in any
  context, returns the same reference and constructs nothing. If it is not shareable, the
  pool is left as it was, no later call puts that handler into the pool, and a second
  request with that key constructs a new handler, whose reference is not the first one.
\<close>

theorem getTechniqueHandler_sharing:
  assumes "pooledAllocated st"
    and "pool st (key t1) = None"
    and "key t2 = key t1"
    and "registry (name t1) = Some ctor1"
  shows "(isShareableAcrossTiles (ctor1 t1 tile1 context1) \<longrightarrow>
      (\<exists>handler st1.
         getTechniqueHandler registry t1 tile1 context1 st = Inr (handler, st1) \<and>
         pool st1 (key t1) = Some handler \<and>
         allocated st1 ! handler = ctor1 t1 tile1 context1 \<and>
         getTechniqueHandler registry t2 tile2 context2 st1 = Inr (handler, st1))) \<and>
    (\<not> isShareableAcrossTiles (ctor1 t1 tile1 context1) \<longrightarrow>
      (\<exists>handler1 st1.
         getTechniqueHandler registry t1 tile1 context1 st = Inr (handler1, st1) \<and>
         allocated st1 ! handler1 = ctor1 t1 tile1 context1 \<and>
         pool st1 = pool st \<and>
         (\<forall>cs. handler1 \<notin> ran (pool (poolCalls registry cs st1))) \<and>
         (\<forall>ctor2. registry (name t2) = Some ctor2 \<longrightarrow>
            (\<exists>handler2 st2.
               getTechniqueHandler registry t2 tile2 context2 st1 = Inr (handler2, st2) \<and>
               handler2 \<noteq> handler1 \<and>
               handler2 = length (allocated st1) \<and>
               allocated st2 ! handler2 = ctor2 t2 tile2 context2))))"
proof (intro conjI impI)
  assume sh: "isShareableAcrossTiles (ctor1 t1 tile1 context1)"
  let ?st1 = "st\<lparr>allocated := allocated st @ [ctor1 t1 tile1 context1],
             pool := (pool st)(key t1 \<mapsto> length (allocated st))\<rparr>"
  have first: "getTechniqueHandler registry t1 tile1 context1 st =
      Inr (length (allocated st), ?st1)"
    using assms(2,4) sh by (rule getTechniqueHandler_shareable)
  have "pool ?st1 (key t2) = Some (length (allocated st))"
    using assms(3) by simp
  then have second: "getTechniqueHandler registry t2 tile2 context2 ?st1 =
      Inr (length (allocated st), ?st1)"
    by (rule getTechniqueHandler_pooled)
  from first second show "\<exists>handler st1.
         getTechniqueHandler registry t1 tile1 context1 st = Inr (handler, st1) \<and>
         pool st1 (key t1) = Some handler \<and>
         allocated st1 ! handler = ctor1 t1 tile1 context1 \<and>
         getTechniqueHandler registry t2 tile2 context2 st1 = Inr (handler, st1)"
    by simp
next
  assume nsh: "\<not> isShareableAcrossTiles (ctor1 t1 tile1 context1)"
  let ?r = "length (allocated st)"
  let ?st1 = "st\<lparr>allocated := allocated st @ [ctor1 t1 tile1 context1]\<rparr>"
  have first: "getTechniqueHandler registry t1 tile1 context1 st = Inr (?r, ?st1)"
    using assms(2,4) nsh by (rule getTechniqueHandler_private)
  have out: "?r < length (allocated ?st1)" "?r \<notin> ran (pool ?st1)"
    using assms(1) by (auto simp: pooledAllocated_def)
  have never: "\<forall>cs. ?r \<notin> ran (pool (poolCalls registry cs ?st1))"
    using poolCalls_keeps_out [OF out] by blast
  have again: "\<forall>ctor2. registry (name t2) = Some ctor2 \<longrightarrow>
      (\<exists>handler2 st2.
         getTechniqueHandler registry t2 tile2 context2 ?st1 = Inr (handler2, st2) \<and>
         handler2 \<noteq> ?r \<and> handler2 = length (allocated ?st1) \<and>
         allocated st2 ! handler2 = ctor2 t2 tile2 context2)"
  proof (intro allI impI)
    fix ctor2
    assume c2: "registry (name t2) = Some ctor2"
    have miss: "pool ?st1 (key t2) = None"
      using assms(2,3) by simp
    show "\<exists>handler2 st2.
         getTechniqueHandler registry t2 tile2 context2 ?st1 = Inr (handler2, st2) \<and>
         handler2 \<noteq> ?r \<and> handler2 = length (allocated ?st1) \<and>
         allocated st2 ! handler2 = ctor2 t2 tile2 context2"
    proof (cases "isShareableAcrossTiles (ctor2 t2 tile2 context2)")
      case True
      have "getTechniqueHandler registry t2 tile2 context2 ?st1 =
          Inr (length (allocated ?st1),
               ?st1\<lparr>allocated := allocated ?st1 @ [ctor2 t2 tile2 context2],
                  pool := (pool ?st1)(key t2 \<mapsto> length (allocated ?st1))\<rparr>)"
        using miss c2 True by (rule getTechniqueHandler_shareable)
      then show ?thesis
        by (simp add: nth_append)
    next
      case False
      have "getTechniqueHandler registry t2 tile2 context2 ?st1 =
          Inr (length (allocated ?st1),
               ?st1\<lparr>allocated := allocated ?st1 @ [ctor2 t2 tile2 context2]\<rparr>)"
        using miss c2 False by (rule getTechniqueHandler_private)
      then show ?thesis
        by (simp add: nth_append)
    qed
  qed
  from first never again show "\<exists>handler1 st1.
         getTechniqueHandler registry t1 tile1 context1 st = Inr (handler1, st1) \<and>
         allocated st1 ! handler1 = ctor1 t1 tile1 context1 \<and>
         pool st1 = pool st \<and>
         (\<forall>cs. handler1 \<notin> ran (pool (poolCalls registry cs st1))) \<and>
         (\<forall>ctor2. registry (name t2) = Some ctor2 \<longrightarrow>
            (\<exists>handler2 st2.
               getTechniqueHandler registry t2 tile2 context2 st1 = Inr (handler2, st2) \<and>
               handler2 \<noteq> handler1 \<and>
               handler2 = length (allocated st1) \<and>
               allocated st2 ! handler2 = ctor2 t2 tile2 context2))"
    by simp
qed


theorem getTechniqueHandler_sharing_witness:
  "(\<exists>handler st1.
      getTechniqueHandler exampleRegistry \<lparr>name = ''fill'', key = ''k1'', enabled = None\<rparr>
        \<lparr>offset = 0, frameNumLastVisible = 0\<rparr> \<lparr>env = (\<lambda>n. None), frameNumber = 1\<rparr> emptyPool
        = Inr (handler, st1) \<and>
      pool st1 ''k1'' = Some handler \<and>
      getTechniqueHandler exampleRegistry \<lparr>name = ''fill'', key = ''k1'', enabled = None\<rparr>
        \<lparr>offset = 1, frameNumLastVisible = 0\<rparr> \<lparr>env = (\<lambda>n. None), frameNumber = 2\<rparr> st1
        = Inr (handler, st1)) \<and>
   (\<exists>handler1 st1 handler2 st2.
      getTechniqueHandler exampleRegistry
        \<lparr>name = ''extruded-polygon'', key = ''k2'', enabled = None\<rparr>
        \<lparr>offset = 0, frameNumLastVisible = 0\<rparr> \<lparr>env = (\<lambda>n. None), frameNumber = 1\<rparr> emptyPool
        = Inr (handler1, st1) \<and>
      pool st1 ''k2'' = None \<and>
      getTechniqueHandler exampleRegistry
        \<lparr>name = ''extruded-polygon'', key = ''k2'', enabled = None\<rparr>
        \<lparr>offset = 1, frameNumLastVisible = 0\<rparr> \<lparr>env = (\<lambda>n. None), frameNumber = 2\<rparr> st1
        = Inr (handler2, st2) \<and>
      handler2 \<noteq> handler1)"
proof -
  have wf: "pooledAllocated emptyPool"
    by (simp add: pooledAllocated_def emptyPool_def)
  have a: "\<exists>handler st1.
      getTechniqueHandler exampleRegistry \<lparr>name = ''fill'', key = ''k1'', enabled = None\<rparr>
        \<lparr>offset = 0, frameNumLastVisible = 0\<rparr> \<lparr>env = (\<lambda>n. None), frameNumber = 1\<rparr> emptyPool
        = Inr (handler, st1) \<and>
      pool st1 ''k1'' = Some handler \<and>
      getTechniqueHandler exampleRegistry \<lparr>name = ''fill'', key = ''k1'', enabled = None\<rparr>
        \<lparr>offset = 1, frameNumLastVisible = 0\<rparr> \<lparr>env = (\<lambda>n. None), frameNumber = 2\<rparr> st1
        = Inr (handler, st1)"
    using getTechniqueHandler_sharing
      [of emptyPool "\<lparr>name = ''fill'', key = ''k1'', enabled = None\<rparr>"
          "\<lparr>name = ''fill'', key = ''k1'', enabled = None\<rparr>" exampleRegistry shareableCtor
          "\<lparr>offset = 0, frameNumLastVisible = 0\<rparr>" "\<lparr>env = (\<lambda>n. None), frameNumber = 1\<rparr>"
          "\<lparr>offset = 1, frameNumLastVisible = 0\<rparr>" "\<lparr>env = (\<lambda>n. None), frameNumber = 2\<rparr>", OF wf]
    by (simp add: emptyPool_def exampleRegistry_def shareableCtor_def
        newGenericTechniqueHandler_def) blast
  have b: "\<exists>handler1 st1 handler2 st2.
      getTechniqueHandler exampleRegistry
        \<lparr>name = ''extruded-polygon'', key = ''k2'', enabled = None\<rparr>
        \<lparr>offset = 0, frameNumLastVisible = 0\<rparr> \<lparr>env = (\<lambda>n. None), frameNumber = 1\<rparr> emptyPool
        = Inr (handler1, st1) \<and>
      pool st1 ''k2'' = None \<and>
      getTechniqueHandler exampleRegistry
        \<lparr>name = ''extruded-polygon'', key = ''k2'', enabled = None\<rparr>
        \<lparr>offset = 1, frameNumLastVisible = 0\<rparr> \<lparr>env = (\<lambda>n. None), frameNumber = 2\<rparr> st1
        = Inr (handler2, st2) \<and>
      handler2 \<noteq> handler1"
    using getTechniqueHandler_sharing
      [of emptyPool "\<lparr>name = ''extruded-polygon'', key = ''k2'', enabled = None\<rparr>"
          "\<lparr>name = ''extruded-polygon'', key = ''k2'', enabled = None\<rparr>" exampleRegistry
          privateCtor
          "\<lparr>offset = 0, frameNumLastVisible = 0\<rparr>" "\<lparr>env = (\<lambda>n. None), frameNumber = 1\<rparr>"
          "\<lparr>offset = 1, frameNumLastVisible = 0\<rparr>" "\<lparr>env = (\<lambda>n. None), frameNumber = 2\<rparr>", OF wf]
    by (simp add: emptyPool_def exampleRegistry_def privateCtor_def
        newGenericTechniqueHandler_def) fastforce
  from a b show ?thesis by blast
qed


subsection \<open>The group loop\<close>

lemma example_first_pass:
  "processGroups exampleInput exampleTechniques exampleState exampleGroups =
     ([\<lparr>start = 0, count = 5, technique = 0, createdOffsets = [0]\<rparr>,
       \<lparr>start = 5, count = 3, technique = 0, createdOffsets = [0]\<rparr>,
       \<lparr>start = 8, count = 2, technique = 1, createdOffsets = [0]\<rparr>],
      exampleState
        \<lparr>techniqueHandlerPool :=
           \<lparr>pool = [''fill-0'' \<mapsto> 0, ''line-1'' \<mapsto> 1],
            allocated = [newGenericTechniqueHandler, newGenericTechniqueHandler]\<rparr>,
         trace :=
           [PoolRequest 0, CreateObject 0 \<lparr>start = 0, count = 8, technique = 0\<rparr>,
            PoolRequest 1, CreateObject 1 \<lparr>start = 8, count = 2, technique = 1\<rparr>]\<rparr>,
      None)"
  by (simp add: exampleInput_def exampleState_def exampleGroups_def exampleTechniques_def
      emptyPool_def exampleRegistry_def shareableCtor_def
      handleMergedGroup_def canHandle_def getTechniqueHandler_def
      newGenericTechniqueHandler_def isDynamic_def markCreated_def rejected_def Let_def)


lemma contiguousRun_prefix:
  "contiguousRun techniqueIndex end0 gs = take (length (contiguousRun techniqueIndex end0 gs)) gs"
  by (induction gs arbitrary: end0) simp_all

lemma compress_run:
  "compress techniqueIndex start0 count0 tileOffset gs =
     (count0 + sum_list (map count (contiguousRun techniqueIndex (start0 + count0) gs)),
      map (markCreated tileOffset) (contiguousRun techniqueIndex (start0 + count0) gs),
      drop (length (contiguousRun techniqueIndex (start0 + count0) gs)) gs)"
proof (induction gs arbitrary: count0)
  case Nil
  show ?case by simp
next
  case (Cons g gs)
  show ?case
  proof (cases "technique g = techniqueIndex \<and> start g = start0 + count0")
    case True
    then have "start0 + (count0 + count g) = start g + count g" by simp
    with Cons [of "count0 + count g"] True show ?thesis by simp
  next
    case False
    then show ?thesis by auto
  qed
qed

lemma processGroups_created:
  "offset (currentTile inp) \<in> set (createdOffsets grp) \<Longrightarrow>
   processGroups inp techs st (grp # rest) =
     (case processGroups inp techs st rest of (rest', st', e) \<Rightarrow> (grp # rest', st', e))"
  by simp

lemma processGroups_undefined:
  "offset (currentTile inp) \<notin> set (createdOffsets grp) \<Longrightarrow> length techs \<le> technique grp \<Longrightarrow>
   processGroups inp techs st (grp # rest) = (grp # rest, st, Some TypeError)"
  by simp

lemma processGroups_rejected:
  "offset (currentTile inp) \<notin> set (createdOffsets grp) \<Longrightarrow> technique grp < length techs \<Longrightarrow>
   rejected inp (techs ! technique grp) \<Longrightarrow>
   processGroups inp techs st (grp # rest) =
     (case processGroups inp techs st rest of (rest', st', e) \<Rightarrow> (grp # rest', st', e))"
  by simp

lemma processGroups_merge:
  assumes "offset (currentTile inp) \<notin> set (createdOffsets grp)"
    and "technique grp < length techs"
    and "\<not> rejected inp (techs ! technique grp)"
  shows "processGroups inp techs st (grp # rest) =
     (let run = contiguousRun (technique grp) (start grp + count grp) rest;
          mergedGroup = \<lparr>start = start grp, count = count grp + sum_list (map count run),
                         technique = technique grp\<rparr>
      in case handleMergedGroup inp (techs ! technique grp) mergedGroup st of
           (st1, Some e) \<Rightarrow>
             (map (markCreated (offset (currentTile inp))) (grp # run) @ drop (length run) rest,
              st1, Some e)
         | (st1, None) \<Rightarrow>
             (case processGroups inp techs st1 (drop (length run) rest) of
                (remaining', st2, e) \<Rightarrow>
                  (map (markCreated (offset (currentTile inp))) (grp # run) @ remaining', st2, e)))"
  using assms by (simp add: compress_run Let_def split: prod.splits option.splits)


subsection \<open>Marks\<close>

lemma chained_tail: "chained off (g # gs) \<Longrightarrow> chained off gs"
  by (cases gs) simp_all

lemma chained_drop: "chained off gs \<Longrightarrow> chained off (drop k gs)"
proof (induction k arbitrary: gs)
  case 0
  then show ?case by simp
next
  case (Suc k)
  show ?case
  proof (cases gs)
    case Nil
    then show ?thesis by simp
  next
    case (Cons g rest)
    with Suc.prems have "chained off rest" by (simp add: chained_tail)
    with Suc.IH Cons show ?thesis by simp
  qed
qed

lemma chained_Cons_iff:
  "chained off (g # gs) =
     ((gs \<noteq> [] \<longrightarrow>
        (technique (hd gs) = technique g \<and> start (hd gs) = start g + count g \<and>
         off \<in> set (createdOffsets (hd gs)) \<longrightarrow> off \<in> set (createdOffsets g))) \<and>
      chained off gs)"
  by (cases gs) auto

lemma chained_marked_Cons:
  "off \<in> set (createdOffsets g) \<Longrightarrow> chained off gs \<Longrightarrow> chained off (g # gs)"
  by (simp add: chained_Cons_iff)

lemma chained_marked_append:
  "\<forall>g \<in> set xs. off \<in> set (createdOffsets g) \<Longrightarrow> chained off ys \<Longrightarrow> chained off (xs @ ys)"
  by (induction xs) (simp_all add: chained_marked_Cons)

text \<open>Behind a group that is not marked, the groups that are merged with it are not marked.\<close>

lemma run_not_marked:
  "chained off (g # rest) \<Longrightarrow> off \<notin> set (createdOffsets g) \<Longrightarrow>
   \<forall>r \<in> set (contiguousRun (technique g) (start g + count g) rest).
     off \<notin> set (createdOffsets r)"
proof (induction rest arbitrary: g)
  case Nil
  show ?case by simp
next
  case (Cons b rest)
  show ?case
  proof (cases "technique b = technique g \<and> start b = start g + count g")
    case True
    with Cons.prems have b: "off \<notin> set (createdOffsets b)" by auto
    from Cons.prems have "chained off (b # rest)" by simp
    from Cons.IH [OF this b] True b show ?thesis by simp
  next
    case False
    then show ?thesis by auto
  qed
qed

lemma markCreated_fields [simp]:
  "start (markCreated off g) = start g"
  "count (markCreated off g) = count g"
  "technique (markCreated off g) = technique g"
  "createdOffsets (markCreated off g) = createdOffsets g @ [off]"
  by (simp_all add: markCreated_def)

lemma keptOrMarked_refl: "keptOrMarked off g g"
  by (simp add: keptOrMarked_def)

lemma list_all2_keptOrMarked_refl: "list_all2 (keptOrMarked off) gs gs"
  by (simp add: list_all2_refl keptOrMarked_refl)

lemma processGroups_relates:
  assumes "chained (offset (currentTile inp)) gs"
    and "processGroups inp techs st gs = (gs', st', e)"
  shows "list_all2 (keptOrMarked (offset (currentTile inp))) gs gs'"
  using assms
proof (induction "length gs" arbitrary: gs st gs' st' e rule: less_induct)
  case less
  let ?off = "offset (currentTile inp)"
  show ?case
  proof (cases gs)
    case Nil
    with less.prems show ?thesis by simp
  next
    case (Cons g rest)
    have tail: "chained ?off rest"
      using less.prems(1) Cons by (simp add: chained_tail)
    consider (skip) "?off \<in> set (createdOffsets g) \<or>
          (technique g < length techs \<and> rejected inp (techs ! technique g))"
      | (undef) "?off \<notin> set (createdOffsets g)" "length techs \<le> technique g"
      | (merge) "?off \<notin> set (createdOffsets g)" "technique g < length techs"
          "\<not> rejected inp (techs ! technique g)"
      by fastforce
    then show ?thesis
    proof cases
      case skip
      obtain rest' st1 e1 where r: "processGroups inp techs st rest = (rest', st1, e1)"
        by (cases "processGroups inp techs st rest")
      have "processGroups inp techs st (g # rest) = (g # rest', st1, e1)"
        using skip r by auto
      with less.prems(2) Cons have gs': "gs' = g # rest'" by simp
      have "list_all2 (keptOrMarked ?off) rest rest'"
        using less.hyps [of rest st rest' st1 e1] tail r Cons by simp
      with gs' Cons show ?thesis by (simp add: keptOrMarked_refl)
    next
      case undef
      with less.prems(2) Cons have "gs' = gs" by simp
      then show ?thesis by (simp add: list_all2_keptOrMarked_refl)
    next
      case merge
      let ?run = "contiguousRun (technique g) (start g + count g) rest"
      let ?mg = "\<lparr>start = start g, count = count g + sum_list (map count ?run),
                   technique = technique g\<rparr>"
      have unmarked: "\<forall>r \<in> set ?run. ?off \<notin> set (createdOffsets r)"
        using less.prems(1) Cons merge(1) by (simp add: run_not_marked)
      have run: "list_all2 (keptOrMarked ?off) ?run (map (markCreated ?off) ?run)"
        using unmarked by (simp add: list_all2_conv_all_nth keptOrMarked_def)
      have split: "rest = ?run @ drop (length ?run) rest"
        using contiguousRun_prefix [of "technique g" "start g + count g" rest]
        by (metis append_take_drop_id)
      have head: "keptOrMarked ?off g (markCreated ?off g)"
        using merge(1) by (simp add: keptOrMarked_def)
      obtain st1 e1 where h: "handleMergedGroup inp (techs ! technique g) ?mg st = (st1, e1)"
        by (cases "handleMergedGroup inp (techs ! technique g) ?mg st")
      show ?thesis
      proof (cases e1)
        case (Some err)
        have "processGroups inp techs st (g # rest) =
            (map (markCreated ?off) (g # ?run) @ drop (length ?run) rest, st1, Some err)"
          using processGroups_merge [OF merge, of st rest] h Some by (simp add: Let_def)
        with less.prems(2) Cons
        have gs': "gs' = markCreated ?off g # map (markCreated ?off) ?run @ drop (length ?run) rest"
          by simp
        have "list_all2 (keptOrMarked ?off) (?run @ drop (length ?run) rest)
            (map (markCreated ?off) ?run @ drop (length ?run) rest)"
          using run by (intro list_all2_appendI) (simp_all add: list_all2_keptOrMarked_refl)
        with split have "list_all2 (keptOrMarked ?off) rest
            (map (markCreated ?off) ?run @ drop (length ?run) rest)"
          by simp
        with gs' Cons head show ?thesis by simp
      next
        case None
        obtain rem' st2 e2 where
          r: "processGroups inp techs st1 (drop (length ?run) rest) = (rem', st2, e2)"
          by (cases "processGroups inp techs st1 (drop (length ?run) rest)")
        have "processGroups inp techs st (g # rest) =
            (map (markCreated ?off) (g # ?run) @ rem', st2, e2)"
          using processGroups_merge [OF merge, of st rest] h None r by (simp add: Let_def)
        with less.prems(2) Cons
        have gs': "gs' = markCreated ?off g # map (markCreated ?off) ?run @ rem'"
          by simp
        have "list_all2 (keptOrMarked ?off) (drop (length ?run) rest) rem'"
          using less.hyps [of "drop (length ?run) rest" st1 rem' st2 e2] tail r Cons
          by (simp add: chained_drop)
        with run have "list_all2 (keptOrMarked ?off) (?run @ drop (length ?run) rest)
            (map (markCreated ?off) ?run @ rem')"
          by (intro list_all2_appendI)
        with split have "list_all2 (keptOrMarked ?off) rest (map (markCreated ?off) ?run @ rem')"
          by simp
        with gs' Cons head show ?thesis by simp
      qed
    qed
  qed
qed


lemma processGroups_head_skipped:
  assumes "processGroups inp techs st (g # rest) = (gs', st', e)"
    and "offset (currentTile inp) \<notin> set (createdOffsets g)"
    and "length techs \<le> technique g \<or> rejected inp (techs ! technique g)"
  shows "gs' \<noteq> [] \<and> hd gs' = g"
proof (cases "length techs \<le> technique g")
  case True
  with assms(1,2) show ?thesis by auto
next
  case False
  obtain rest' st1 e1 where r: "processGroups inp techs st rest = (rest', st1, e1)"
    by (cases "processGroups inp techs st rest")
  from False assms(3) have "rejected inp (techs ! technique g)" by simp
  with False assms(1,2) r show ?thesis by auto
qed

lemma processGroups_chained:
  assumes "chained (offset (currentTile inp)) gs"
    and "processGroups inp techs st gs = (gs', st', e)"
  shows "chained (offset (currentTile inp)) gs'"
  using assms
proof (induction "length gs" arbitrary: gs st gs' st' e rule: less_induct)
  case less
  let ?off = "offset (currentTile inp)"
  show ?case
  proof (cases gs)
    case Nil
    with less.prems show ?thesis by simp
  next
    case (Cons g rest)
    have tail: "chained ?off rest"
      using less.prems(1) Cons by (simp add: chained_tail)
    consider (created) "?off \<in> set (createdOffsets g)"
      | (rej) "?off \<notin> set (createdOffsets g)" "technique g < length techs"
          "rejected inp (techs ! technique g)"
      | (undef) "?off \<notin> set (createdOffsets g)" "length techs \<le> technique g"
      | (merge) "?off \<notin> set (createdOffsets g)" "technique g < length techs"
          "\<not> rejected inp (techs ! technique g)"
      by fastforce
    then show ?thesis
    proof cases
      case created
      obtain rest' st1 e1 where r: "processGroups inp techs st rest = (rest', st1, e1)"
        by (cases "processGroups inp techs st rest")
      have "processGroups inp techs st (g # rest) = (g # rest', st1, e1)"
        using created r by auto
      with less.prems(2) Cons have gs': "gs' = g # rest'" by simp
      have "chained ?off rest'"
        using less.hyps [of rest st rest' st1 e1] tail r Cons by simp
      with gs' created show ?thesis by (simp add: chained_marked_Cons)
    next
      case rej
      obtain rest' st1 e1 where r: "processGroups inp techs st rest = (rest', st1, e1)"
        by (cases "processGroups inp techs st rest")
      have "processGroups inp techs st (g # rest) = (g # rest', st1, e1)"
        using rej r by auto
      with less.prems(2) Cons have gs': "gs' = g # rest'" by simp
      have ch: "chained ?off rest'"
        using less.hyps [of rest st rest' st1 e1] tail r Cons by simp
      have "technique (hd rest') = technique g \<and> start (hd rest') = start g + count g \<and>
          ?off \<in> set (createdOffsets (hd rest')) \<longrightarrow> ?off \<in> set (createdOffsets g)"
        if ne: "rest' \<noteq> []"
      proof (cases rest)
        case Nil
        with r ne show ?thesis by simp
      next
        case (Cons b rest2)
        show ?thesis
        proof (cases "technique b = technique g \<and> start b = start g + count g")
          case True
          with less.prems(1) \<open>gs = g # rest\<close> Cons rej(1)
          have b: "?off \<notin> set (createdOffsets b)" by auto
          from True rej have "length techs \<le> technique b \<or> rejected inp (techs ! technique b)"
            by simp
          from processGroups_head_skipped [OF r [unfolded Cons] b this]
          have "hd rest' = b" by simp
          with b show ?thesis by simp
        next
          case False
          have "list_all2 (keptOrMarked ?off) rest rest'"
            using tail r by (rule processGroups_relates)
          with Cons have "keptOrMarked ?off b (hd rest')"
            by (cases rest') simp_all
          then have "technique (hd rest') = technique b" "start (hd rest') = start b"
            by (auto simp: keptOrMarked_def)
          with False show ?thesis by auto
        qed
      qed
      with gs' ch show ?thesis by (simp add: chained_Cons_iff)
    next
      case undef
      with less.prems Cons show ?thesis by simp
    next
      case merge
      let ?run = "contiguousRun (technique g) (start g + count g) rest"
      let ?mg = "\<lparr>start = start g, count = count g + sum_list (map count ?run),
                   technique = technique g\<rparr>"
      have marked: "\<forall>x \<in> set (markCreated ?off g # map (markCreated ?off) ?run).
          ?off \<in> set (createdOffsets x)"
        by simp
      obtain st1 e1 where h: "handleMergedGroup inp (techs ! technique g) ?mg st = (st1, e1)"
        by (cases "handleMergedGroup inp (techs ! technique g) ?mg st")
      show ?thesis
      proof (cases e1)
        case (Some err)
        have "processGroups inp techs st (g # rest) =
            (map (markCreated ?off) (g # ?run) @ drop (length ?run) rest, st1, Some err)"
          using processGroups_merge [OF merge, of st rest] h Some by (simp add: Let_def)
        with less.prems(2) Cons
        have gs': "gs' = (markCreated ?off g # map (markCreated ?off) ?run) @
            drop (length ?run) rest"
          by simp
        have "chained ?off (drop (length ?run) rest)"
          using tail by (rule chained_drop)
        with marked show ?thesis unfolding gs' by (rule chained_marked_append)
      next
        case None
        obtain rem' st2 e2 where
          r: "processGroups inp techs st1 (drop (length ?run) rest) = (rem', st2, e2)"
          by (cases "processGroups inp techs st1 (drop (length ?run) rest)")
        have "processGroups inp techs st (g # rest) =
            (map (markCreated ?off) (g # ?run) @ rem', st2, e2)"
          using processGroups_merge [OF merge, of st rest] h None r by (simp add: Let_def)
        with less.prems(2) Cons
        have gs': "gs' = (markCreated ?off g # map (markCreated ?off) ?run) @ rem'"
          by simp
        have "chained ?off rem'"
          using less.hyps [of "drop (length ?run) rest" st1 rem' st2 e2] tail r Cons
          by (simp add: chained_drop)
        with marked show ?thesis unfolding gs' by (rule chained_marked_append)
      qed
    qed
  qed
qed

lemma keptOrMarked_chained_other:
  "list_all2 (keptOrMarked off) gs gs' \<Longrightarrow> other \<noteq> off \<Longrightarrow> chained other gs \<Longrightarrow>
   chained other gs'"
proof (induction rule: list_all2_induct)
  case Nil
  show ?case by simp
next
  case (Cons g gs g' gs')
  have same: "start g' = start g" "count g' = count g" "technique g' = technique g"
    "other \<in> set (createdOffsets g') \<longleftrightarrow> other \<in> set (createdOffsets g)"
    using Cons.hyps(1) Cons.prems(1) by (auto simp: keptOrMarked_def)
  have tail: "chained other gs'"
    using Cons by (simp add: chained_tail)
  show ?case
  proof (cases gs')
    case Nil
    then show ?thesis by simp
  next
    case (Cons b' rest')
    with \<open>list_all2 (keptOrMarked off) gs gs'\<close> obtain b rest where
      gs: "gs = b # rest" and b: "keptOrMarked off b b'"
      by (cases gs) auto
    from b \<open>other \<noteq> off\<close> have sameb: "start b' = start b" "technique b' = technique b"
      "other \<in> set (createdOffsets b') \<longleftrightarrow> other \<in> set (createdOffsets b)"
      by (auto simp: keptOrMarked_def)
    from \<open>chained other (g # gs)\<close> gs
    have "technique b = technique g \<and> start b = start g + count g \<and>
        other \<in> set (createdOffsets b) \<longrightarrow> other \<in> set (createdOffsets g)"
      by simp
    with same sameb tail Cons show ?thesis by simp
  qed
qed

lemma keptOrMarked_distinct:
  "list_all2 (keptOrMarked off) gs gs' \<Longrightarrow> \<forall>g \<in> set gs. distinct (createdOffsets g) \<Longrightarrow>
   \<forall>g \<in> set gs'. distinct (createdOffsets g)"
  by (induction rule: list_all2_induct) (auto simp: keptOrMarked_def)

lemma chained_not_marked:
  "\<forall>g \<in> set gs. off \<notin> set (createdOffsets g) \<Longrightarrow> chained off gs"
  by (induction gs) (simp_all add: chained_Cons_iff)

lemma consistentMarks_initial:
  "\<forall>g \<in> set gs. createdOffsets g = [] \<Longrightarrow> consistentMarks gs"
  by (simp add: consistentMarks_def chained_not_marked)

lemma consistentMarks_processGroups:
  assumes "consistentMarks gs" and "processGroups inp techs st gs = (gs', st', e)"
  shows "consistentMarks gs'"
proof -
  let ?off = "offset (currentTile inp)"
  from assms(1) have ch: "chained ?off gs" by (simp add: consistentMarks_def)
  from ch assms(2) have rel: "list_all2 (keptOrMarked ?off) gs gs'"
    by (rule processGroups_relates)
  have "chained other gs'" for other
  proof (cases "other = ?off")
    case True
    with ch assms(2) show ?thesis by (simp add: processGroups_chained)
  next
    case False
    from assms(1) have "chained other gs" by (simp add: consistentMarks_def)
    with rel False show ?thesis by (rule keptOrMarked_chained_other)
  qed
  moreover have "\<forall>g \<in> set gs'. distinct (createdOffsets g)"
    using rel assms(1) by (auto simp: consistentMarks_def dest: keptOrMarked_distinct)
  ultimately show ?thesis by (simp add: consistentMarks_def)
qed

lemma consistentMarks_groupsAfter:
  "consistentMarks gs \<Longrightarrow> consistentMarks (groupsAfter passes gs)"
proof (induction passes arbitrary: gs)
  case Nil
  then show ?case by simp
next
  case (Cons p passes)
  obtain inp techs st where p: "p = (inp, techs, st)" by (cases p)
  obtain gs' st' e where r: "processGroups inp techs st gs = (gs', st', e)"
    by (cases "processGroups inp techs st gs")
  from Cons.prems r have "consistentMarks gs'" by (rule consistentMarks_processGroups)
  from Cons.IH [OF this] p r show ?case by simp
qed

lemma processGroups_all_created:
  "\<forall>g \<in> set gs. offset (currentTile inp) \<in> set (createdOffsets g) \<Longrightarrow>
   processGroups inp techs st gs = (gs, st, None)"
  by (induction gs) simp_all

lemma handleMergedGroup_trace:
  "\<exists>new. trace (fst (handleMergedGroup inp tech mg st)) = trace st @ new \<and>
     (\<forall>c \<in> set new. c = PoolRequest (technique mg) \<or>
        (\<exists>h. c = CreateObject h mg) \<or> (\<exists>m. c = NewObject m mg))"
  by (auto simp: handleMergedGroup_def Let_def split: option.splits sum.splits)

lemma ledByUnmarked_mono:
  "set gs \<subseteq> set gs' \<Longrightarrow> ledByUnmarked off gs c \<Longrightarrow> ledByUnmarked off gs' c"
  by (cases c) auto

lemma processGroups_trace:
  assumes "processGroups inp techs st gs = (gs', st', e)"
  shows "\<exists>new. trace st' = trace st @ new \<and>
     (\<forall>c \<in> set new. ledByUnmarked (offset (currentTile inp)) gs c)"
  using assms
proof (induction "length gs" arbitrary: gs st gs' st' e rule: less_induct)
  case less
  let ?off = "offset (currentTile inp)"
  show ?case
  proof (cases gs)
    case Nil
    with less.prems show ?thesis by simp
  next
    case (Cons g rest)
    consider (skip) "?off \<in> set (createdOffsets g) \<or>
          (technique g < length techs \<and> rejected inp (techs ! technique g))"
      | (undef) "?off \<notin> set (createdOffsets g)" "length techs \<le> technique g"
      | (merge) "?off \<notin> set (createdOffsets g)" "technique g < length techs"
          "\<not> rejected inp (techs ! technique g)"
      by fastforce
    then show ?thesis
    proof cases
      case skip
      obtain rest' st1 e1 where r: "processGroups inp techs st rest = (rest', st1, e1)"
        by (cases "processGroups inp techs st rest")
      have "processGroups inp techs st (g # rest) = (g # rest', st1, e1)"
        using skip r by auto
      with less.prems Cons have st': "st' = st1" by simp
      have "length rest < length gs"
        using Cons by simp
      from less.hyps [OF this r] obtain new where
        "trace st1 = trace st @ new" "\<forall>c \<in> set new. ledByUnmarked ?off rest c"
        by blast
      moreover have "set rest \<subseteq> set gs" using Cons by auto
      ultimately show ?thesis using st' by (blast intro: ledByUnmarked_mono)
    next
      case undef
      with less.prems Cons show ?thesis by simp
    next
      case merge
      let ?run = "contiguousRun (technique g) (start g + count g) rest"
      let ?mg = "\<lparr>start = start g, count = count g + sum_list (map count ?run),
                   technique = technique g\<rparr>"
      obtain st1 e1 where h: "handleMergedGroup inp (techs ! technique g) ?mg st = (st1, e1)"
        by (cases "handleMergedGroup inp (techs ! technique g) ?mg st")
      from handleMergedGroup_trace [of inp "techs ! technique g" ?mg st] h obtain new1 where
        new1: "trace st1 = trace st @ new1"
          "\<forall>c \<in> set new1. c = PoolRequest (technique ?mg) \<or>
             (\<exists>h. c = CreateObject h ?mg) \<or> (\<exists>m. c = NewObject m ?mg)"
        by auto
      have led1: "\<forall>c \<in> set new1. ledByUnmarked ?off gs c"
      proof
        fix c
        assume "c \<in> set new1"
        with new1(2) have "c = PoolRequest (technique ?mg) \<or>
             (\<exists>h. c = CreateObject h ?mg) \<or> (\<exists>m. c = NewObject m ?mg)"
          by blast
        then show "ledByUnmarked ?off gs c"
          using merge(1) Cons by auto
      qed
      show ?thesis
      proof (cases e1)
        case (Some err)
        have "processGroups inp techs st (g # rest) =
            (map (markCreated ?off) (g # ?run) @ drop (length ?run) rest, st1, Some err)"
          using processGroups_merge [OF merge, of st rest] h Some by (simp add: Let_def)
        with less.prems Cons have "st' = st1" by simp
        with new1(1) led1 show ?thesis by blast
      next
        case None
        obtain rem' st2 e2 where
          r: "processGroups inp techs st1 (drop (length ?run) rest) = (rem', st2, e2)"
          by (cases "processGroups inp techs st1 (drop (length ?run) rest)")
        have "processGroups inp techs st (g # rest) =
            (map (markCreated ?off) (g # ?run) @ rem', st2, e2)"
          using processGroups_merge [OF merge, of st rest] h None r by (simp add: Let_def)
        with less.prems Cons have st': "st' = st2" by simp
        have "length (drop (length ?run) rest) < length gs"
          using Cons by simp
        from less.hyps [OF this r] obtain new2 where
          new2: "trace st2 = trace st1 @ new2"
            "\<forall>c \<in> set new2. ledByUnmarked ?off (drop (length ?run) rest) c"
          by blast
        have "set (drop (length ?run) rest) \<subseteq> set gs"
          using Cons by (auto dest: in_set_dropD)
        with new2(2) have led2: "\<forall>c \<in> set new2. ledByUnmarked ?off gs c"
          by (blast intro: ledByUnmarked_mono)
        have "trace st' = trace st @ (new1 @ new2)"
          using st' new1(1) new2(1) by simp
        moreover have "\<forall>c \<in> set (new1 @ new2). ledByUnmarked ?off gs c"
          using led1 led2 by auto
        ultimately show ?thesis by blast
      qed
    qed
  qed
qed

lemma processGeometries_all_created:
  "\<forall>srcGeometry \<in> set geoms. \<forall>g \<in> set (groups srcGeometry).
      offset (currentTile inp) \<in> set (createdOffsets g) \<Longrightarrow>
   processGeometries inp techs st geoms = (geoms, st, None)"
  by (induction geoms) (simp_all add: processGroups_all_created)

lemma createObjects_all_created:
  "\<forall>srcGeometry \<in> set (geometries decodedTile). \<forall>g \<in> set (groups srcGeometry).
      offset (currentTile inp) \<in> set (createdOffsets g) \<Longrightarrow>
   createObjects inp decodedTile pool0 dynamic0 =
     (decodedTile,
      \<lparr>techniqueHandlerPool = pool0, dynamicTechniqueHandlers = dynamic0,
        materials = (\<lambda>techniqueIndex. None),
        localTechniqueHandlers = (\<lambda>techniqueIndex. None), trace = []\<rparr>, None)"
  by (simp add: createObjects_def processGeometries_all_created)

text \<open>
  C5: take the groups of a geometry as any sequence of runs of the group loop leaves
  them, starting from the groups that \<^verbatim>\<open>initDecodedTile\<close> prepares, and run the loop once
  more, for a tile with any offset. A group that is already marked with that offset comes
  out as it was: it is neither processed itself nor merged into the span of a group
  before it (the loop marks every group it processes or merges). Every object created in
  the run is created for a span that starts with a group that was not marked. When every
  group is marked, the run calls nothing and changes nothing, and when this holds of
  every geometry of a decoded tile, \<^verbatim>\<open>createObjects\<close> makes no call at all. No group ever
  holds an offset twice, that is, no group is processed twice for one tile offset.
\<close>

theorem createObjects_once_per_offset:
  assumes "\<forall>g \<in> set gs0. createdOffsets g = []"
    and "gs = groupsAfter passes gs0"
    and "processGroups inp techs st gs = (gs', st', e)"
  shows "(\<forall>i < length gs.
            offset (currentTile inp) \<in> set (createdOffsets (gs ! i)) \<longrightarrow> gs' ! i = gs ! i) \<and>
         (\<exists>new. trace st' = trace st @ new \<and>
            (\<forall>c \<in> set new. ledByUnmarked (offset (currentTile inp)) gs c)) \<and>
         ((\<forall>g \<in> set gs. offset (currentTile inp) \<in> set (createdOffsets g)) \<longrightarrow>
            gs' = gs \<and> st' = st \<and> e = None) \<and>
         ((\<forall>srcGeometry \<in> set (geometries decodedTile). \<forall>g \<in> set (groups srcGeometry).
             offset (currentTile inp) \<in> set (createdOffsets g)) \<longrightarrow>
            fst (createObjects inp decodedTile pool0 dynamic0) = decodedTile \<and>
            trace (fst (snd (createObjects inp decodedTile pool0 dynamic0))) = []) \<and>
         (\<forall>g \<in> set gs'. distinct (createdOffsets g))"
proof -
  let ?off = "offset (currentTile inp)"
  have inv: "consistentMarks gs"
    using assms(1,2) by (simp add: consistentMarks_initial consistentMarks_groupsAfter)
  then have "chained ?off gs" by (simp add: consistentMarks_def)
  then have rel: "list_all2 (keptOrMarked ?off) gs gs'"
    using assms(3) by (rule processGroups_relates)
  have one: "\<forall>i < length gs. ?off \<in> set (createdOffsets (gs ! i)) \<longrightarrow> gs' ! i = gs ! i"
    using rel by (auto simp: list_all2_conv_all_nth keptOrMarked_def)
  have two: "(\<forall>g \<in> set gs. ?off \<in> set (createdOffsets g)) \<longrightarrow> gs' = gs \<and> st' = st \<and> e = None"
    using assms(3) by (auto simp: processGroups_all_created)
  have "consistentMarks gs'"
    using inv assms(3) by (rule consistentMarks_processGroups)
  then have three: "\<forall>g \<in> set gs'. distinct (createdOffsets g)"
    by (simp add: consistentMarks_def)
  have four: "(\<forall>srcGeometry \<in> set (geometries decodedTile). \<forall>g \<in> set (groups srcGeometry).
             offset (currentTile inp) \<in> set (createdOffsets g)) \<longrightarrow>
            fst (createObjects inp decodedTile pool0 dynamic0) = decodedTile \<and>
            trace (fst (snd (createObjects inp decodedTile pool0 dynamic0))) = []"
    by (simp add: createObjects_all_created)
  from one two three four processGroups_trace [OF assms(3)] show ?thesis by blast
qed

theorem createObjects_once_per_offset_witness:
  "processGroups exampleInput exampleTechniques exampleState
     (groupsAfter [(exampleInput, exampleTechniques, exampleState)] exampleGroups) =
     (groupsAfter [(exampleInput, exampleTechniques, exampleState)] exampleGroups,
      exampleState, None) \<and>
   createdOffsets
     (hd (groupsAfter [(exampleInput, exampleTechniques, exampleState)] exampleGroups)) = [0]"
proof -
  let ?gs = "groupsAfter [(exampleInput, exampleTechniques, exampleState)] exampleGroups"
  have gs: "?gs =
     [\<lparr>start = 0, count = 5, technique = 0, createdOffsets = [0]\<rparr>,
      \<lparr>start = 5, count = 3, technique = 0, createdOffsets = [0]\<rparr>,
      \<lparr>start = 8, count = 2, technique = 1, createdOffsets = [0]\<rparr>]"
    by (simp add: example_first_pass)
  obtain gs' st' e where
    r: "processGroups exampleInput exampleTechniques exampleState ?gs = (gs', st', e)"
    by (cases "processGroups exampleInput exampleTechniques exampleState ?gs")
  have init: "\<forall>g \<in> set exampleGroups. createdOffsets g = []"
    by (simp add: exampleGroups_def)
  have marked: "\<forall>g \<in> set ?gs. offset (currentTile exampleInput) \<in> set (createdOffsets g)"
    unfolding gs by (simp add: exampleInput_def)
  from createObjects_once_per_offset
    [of exampleGroups ?gs "[(exampleInput, exampleTechniques, exampleState)]"
      exampleInput exampleTechniques exampleState gs' st' e exampleTile emptyPool "[]",
      OF init refl r] marked
  have "gs' = ?gs \<and> st' = exampleState \<and> e = None"
    by blast
  with r gs show ?thesis by simp
qed

text \<open>
  C4: a group that the loop does not skip is merged with the run of groups that follow
  it with the same technique index, each starting where the one before it ends: the
  merged group starts at the group's start, its count is the sum of the counts, and the
  group and every group of the run are marked with the tile offset; the loop goes on
  behind the run. For a technique with a registered handler the merged group gives
  one request to the pool and one call of \<^verbatim>\<open>createObject\<close>. In particular the groups
  \<open>{0,5,A}, {5,3,A}, {8,2,B}\<close> give two calls, for \<open>{0,8,A}\<close> and \<open>{8,2,B}\<close>.
\<close>

theorem createObjects_merges_contiguous:
  "(offset (currentTile inp) \<notin> set (createdOffsets grp) \<and> technique grp < length techs \<and>
    \<not> rejected inp (techs ! technique grp) \<longrightarrow>
      processGroups inp techs st (grp # rest) =
        (let run = contiguousRun (technique grp) (start grp + count grp) rest;
             mergedGroup = \<lparr>start = start grp, count = count grp + sum_list (map count run),
                            technique = technique grp\<rparr>
         in case handleMergedGroup inp (techs ! technique grp) mergedGroup st of
              (st1, Some e) \<Rightarrow>
                (map (markCreated (offset (currentTile inp))) (grp # run) @
                 drop (length run) rest, st1, Some e)
            | (st1, None) \<Rightarrow>
                (case processGroups inp techs st1 (drop (length run) rest) of
                   (remaining', st2, e) \<Rightarrow>
                     (map (markCreated (offset (currentTile inp))) (grp # run) @ remaining',
                      st2, e)))) \<and>
   (canHandle (registeredHandlers inp) tech \<and> localTechniqueHandlers st (technique mg) = None \<longrightarrow>
      (\<exists>h st1. handleMergedGroup inp tech mg st = (st1, None) \<and>
         trace st1 = trace st @ [PoolRequest (technique mg), CreateObject h mg])) \<and>
   (case createObjects exampleInput exampleTile emptyPool [] of
      (decodedTile, st1, e) \<Rightarrow>
        geometries decodedTile =
          [\<lparr>groups =
             [\<lparr>start = 0, count = 5, technique = 0, createdOffsets = [0]\<rparr>,
              \<lparr>start = 5, count = 3, technique = 0, createdOffsets = [0]\<rparr>,
              \<lparr>start = 8, count = 2, technique = 1, createdOffsets = [0]\<rparr>]\<rparr>] \<and>
        trace st1 =
          [PoolRequest 0, CreateObject 0 \<lparr>start = 0, count = 8, technique = 0\<rparr>,
           PoolRequest 1, CreateObject 1 \<lparr>start = 8, count = 2, technique = 1\<rparr>] \<and>
        e = None)"
proof (intro conjI impI)
  assume "offset (currentTile inp) \<notin> set (createdOffsets grp) \<and> technique grp < length techs \<and>
    \<not> rejected inp (techs ! technique grp)"
  then show "processGroups inp techs st (grp # rest) =
        (let run = contiguousRun (technique grp) (start grp + count grp) rest;
             mergedGroup = \<lparr>start = start grp, count = count grp + sum_list (map count run),
                            technique = technique grp\<rparr>
         in case handleMergedGroup inp (techs ! technique grp) mergedGroup st of
              (st1, Some e) \<Rightarrow>
                (map (markCreated (offset (currentTile inp))) (grp # run) @
                 drop (length run) rest, st1, Some e)
            | (st1, None) \<Rightarrow>
                (case processGroups inp techs st1 (drop (length run) rest) of
                   (remaining', st2, e) \<Rightarrow>
                     (map (markCreated (offset (currentTile inp))) (grp # run) @ remaining',
                      st2, e)))"
    by (intro processGroups_merge) simp_all
next
  assume "canHandle (registeredHandlers inp) tech \<and> localTechniqueHandlers st (technique mg) = None"
  then show "\<exists>h st1. handleMergedGroup inp tech mg st = (st1, None) \<and>
         trace st1 = trace st @ [PoolRequest (technique mg), CreateObject h mg]"
    by (auto simp: handleMergedGroup_def canHandle_def getTechniqueHandler_def Let_def
        split: option.splits)
next
  show "case createObjects exampleInput exampleTile emptyPool [] of
      (decodedTile, st1, e) \<Rightarrow>
        geometries decodedTile =
          [\<lparr>groups =
             [\<lparr>start = 0, count = 5, technique = 0, createdOffsets = [0]\<rparr>,
              \<lparr>start = 5, count = 3, technique = 0, createdOffsets = [0]\<rparr>,
              \<lparr>start = 8, count = 2, technique = 1, createdOffsets = [0]\<rparr>]\<rparr>] \<and>
        trace st1 =
          [PoolRequest 0, CreateObject 0 \<lparr>start = 0, count = 8, technique = 0\<rparr>,
           PoolRequest 1, CreateObject 1 \<lparr>start = 8, count = 2, technique = 1\<rparr>] \<and>
        e = None"
    by (simp add: createObjects_def exampleTile_def exampleInput_def exampleGroups_def
      exampleTechniques_def emptyPool_def exampleRegistry_def shareableCtor_def
      handleMergedGroup_def canHandle_def getTechniqueHandler_def
      newGenericTechniqueHandler_def isDynamic_def markCreated_def rejected_def Let_def)
qed

theorem createObjects_merges_contiguous_witness:
  "fst (processGroups exampleInput exampleTechniques exampleState exampleGroups) =
     map (markCreated 0) exampleGroups \<and>
   trace (fst (snd (processGroups exampleInput exampleTechniques exampleState exampleGroups))) =
     [PoolRequest 0, CreateObject 0 \<lparr>start = 0, count = 8, technique = 0\<rparr>,
      PoolRequest 1, CreateObject 1 \<lparr>start = 8, count = 2, technique = 1\<rparr>]"
  using createObjects_merges_contiguous
    [of exampleInput "\<lparr>start = 0, count = 5, technique = 0, createdOffsets = []\<rparr>"
      exampleTechniques exampleState
      "[\<lparr>start = 5, count = 3, technique = 0, createdOffsets = []\<rparr>,
        \<lparr>start = 8, count = 2, technique = 1, createdOffsets = []\<rparr>]"
      "\<lparr>name = ''fill'', key = ''fill-0'', enabled = Some True\<rparr>"
      "\<lparr>start = 0, count = 8, technique = 0\<rparr>"]
  by (simp add: exampleInput_def exampleState_def exampleGroups_def exampleTechniques_def
      emptyPool_def exampleRegistry_def shareableCtor_def
      handleMergedGroup_def canHandle_def getTechniqueHandler_def
      newGenericTechniqueHandler_def isDynamic_def markCreated_def rejected_def Let_def)

text \<open>
  C8: the local array \<^verbatim>\<open>techniqueHandlers\<close> of \<^verbatim>\<open>createObjects\<close> is read and never written.
  Two groups of one technique index that are not merged give two requests to the pool
  in one run; for a technique whose handlers are private the second request constructs a
  second handler.
\<close>

theorem createObjects_requests_pool_again:
  "case createObjects exampleInput repeatedTechniqueTile emptyPool [] of
     (decodedTile, st1, e) \<Rightarrow>
       trace st1 =
         [PoolRequest 0, CreateObject 0 \<lparr>start = 0, count = 5, technique = 0\<rparr>,
          PoolRequest 0, CreateObject 1 \<lparr>start = 7, count = 3, technique = 0\<rparr>] \<and>
       localTechniqueHandlers st1 0 = None \<and>
       length (allocated (techniqueHandlerPool st1)) = 2 \<and>
       e = None"
  by (simp add: createObjects_def repeatedTechniqueTile_def exampleInput_def emptyPool_def
      exampleRegistry_def privateCtor_def
      handleMergedGroup_def canHandle_def getTechniqueHandler_def
      newGenericTechniqueHandler_def isDynamic_def markCreated_def rejected_def Let_def)


subsection \<open>Colour updaters and visibility\<close>

lemma setVisibleInFrame_rest [simp]:
  "tiles (setVisibleInFrame entries frame v scene) = tiles scene"
  "objectCount (setVisibleInFrame entries frame v scene) = objectCount scene"
  "tileObjects (setVisibleInFrame entries frame v scene) = tileObjects scene"
  by (induction entries arbitrary: scene) simp_all

lemma setVisibleInFrame_objects:
  "objects (setVisibleInFrame entries frame v scene) ref =
     (if \<exists>entry \<in> set entries.
           object entry = ref \<and> frameNumLastVisible (tiles scene (tile entry)) = frame
      then (objects scene ref)\<lparr>visible := v\<rparr>
      else objects scene ref)"
proof (induction entries arbitrary: scene)
  case Nil
  show ?case by simp
next
  case (Cons entry rest)
  show ?case
    by (simp add: Cons.IH) auto
qed

lemma setVisibleInFrame_material [simp]:
  "material (objects (setVisibleInFrame entries frame v scene) ref) =
     material (objects scene ref)"
  by (simp add: setVisibleInFrame_objects)

lemma strictEq_same: "strictEq a b \<Longrightarrow> a = b"
  by (induction a b rule: strictEq.induct) simp_all

lemma setVisibleInFrame_rule:
  "visibilityRule entries frame newOpacity scene
     (setVisibleInFrame entries frame (greaterZero newOpacity) scene)"
proof -
  let ?scene' = "setVisibleInFrame entries frame (greaterZero newOpacity) scene"
  have one: "\<forall>entry \<in> set entries.
      frameNumLastVisible (tiles scene (tile entry)) = frame \<longrightarrow>
      visible (objects ?scene' (object entry)) = greaterZero newOpacity"
    by (auto simp: setVisibleInFrame_objects)
  have two: "\<forall>ref. (\<forall>entry \<in> set entries. object entry = ref \<longrightarrow>
                frameNumLastVisible (tiles scene (tile entry)) \<noteq> frame) \<longrightarrow>
             objects ?scene' ref = objects scene ref"
    by (auto simp: setVisibleInFrame_objects)
  have three: "distinct (map object entries) \<longrightarrow>
      (\<forall>entry \<in> set entries.
         frameNumLastVisible (tiles scene (tile entry)) \<noteq> frame \<longrightarrow>
         visible (objects ?scene' (object entry)) = visible (objects scene (object entry)))"
  proof (intro impI ballI)
    fix entry
    assume d: "distinct (map object entries)" and e: "entry \<in> set entries"
      and f: "frameNumLastVisible (tiles scene (tile entry)) \<noteq> frame"
    have "\<forall>other \<in> set entries. object other = object entry \<longrightarrow>
        frameNumLastVisible (tiles scene (tile other)) \<noteq> frame"
    proof (intro ballI impI)
      fix other
      assume "other \<in> set entries" and "object other = object entry"
      with d e have "other = entry"
        by (meson distinct_map inj_onD)
      with f show "frameNumLastVisible (tiles scene (tile other)) \<noteq> frame"
        by simp
    qed
    with two have "objects ?scene' (object entry) = objects scene (object entry)"
      by blast
    then show "visible (objects ?scene' (object entry)) = visible (objects scene (object entry))"
      by simp
  qed
  from one two three show ?thesis
    unfolding visibilityRule_def by blast
qed

lemma updateBaseColor_changed:
  assumes "updateBaseColor applyBaseColorToMaterial mat entries tech context scene =
      (mat', scene')"
    and "opacity mat' \<noteq> opacity mat"
  shows "scene' = setVisibleInFrame entries (frameNumber context) (greaterZero (opacity mat')) scene"
proof -
  let ?mat = "applyBaseColorToMaterial mat tech (tech ''color'') (env context)"
  from assms(1) have mat': "mat' = ?mat"
    by (auto simp: updateBaseColor_def Let_def split: if_splits)
  with assms(2) have "\<not> strictEq (opacity mat) (opacity ?mat)"
    by (auto dest: strictEq_same)
  with assms(1) mat' show ?thesis
    by (simp add: updateBaseColor_def Let_def)
qed

lemma updateLineColor_Fill_changed:
  assumes "updateLineColor_Fill applyBaseColorToMaterial context (h, scene) = Inr (h', scene')"
    and "outlineMaterial h = Some outline" and "outlineMaterial h' = Some outline'"
    and "opacity outline' \<noteq> opacity outline"
  shows "scene' = setVisibleInFrame (outlineObjects h) (frameNumber context)
      (greaterZero (opacity outline')) scene"
proof -
  let ?new = "applyBaseColorToMaterial outline (fillTechnique h)
      (fillTechnique h ''lineColor'') (env context)"
  from assms(1,2) have h': "h' = h\<lparr>outlineMaterial := Some ?new\<rparr>"
    by (auto simp: updateLineColor_Fill_def Let_def split: if_splits)
  with assms(3) have new: "outline' = ?new" by simp
  with assms(4) have "\<not> strictEq (opacity outline) (opacity ?new)"
    by (auto dest: strictEq_same)
  with assms(1,2) new show ?thesis
    by (simp add: updateLineColor_Fill_def Let_def)
qed

lemma updateLineColor_ExtrudedPolygon_changed:
  assumes "updateLineColor_ExtrudedPolygon applyBaseColorToMaterial context (h, scene) =
      Inr (h', scene')"
    and "edgeMaterial h = Some edge" and "edgeMaterial h' = Some edge'"
    and "opacity edge' \<noteq> opacity edge"
  shows "scene' = setVisibleInFrame (edgeObjects h) (frameNumber context)
      (greaterZero (opacity edge')) scene"
proof -
  let ?new = "applyBaseColorToMaterial edge (extrudedTechnique h)
      (extrudedTechnique h ''lineColor'') (env context)"
  from assms(1,2) have h': "h' = h\<lparr>edgeMaterial := Some ?new\<rparr>"
    by (auto simp: updateLineColor_ExtrudedPolygon_def Let_def split: if_splits)
  with assms(3) have new: "edge' = ?new" by simp
  with assms(4) have "\<not> strictEq (opacity edge) (opacity ?new)"
    by (auto dest: strictEq_same)
  with assms(1,2) new show ?thesis
    by (simp add: updateLineColor_ExtrudedPolygon_def Let_def)
qed

lemma updateSecondaryColor_changed:
  assumes "updateSecondaryColor applyBaseColorToMaterial context (h, scene) = Inr (h', scene')"
    and "secondaryMaterial h = Some secondary" and "secondaryMaterial h' = Some secondary'"
    and "opacity secondary' \<noteq> opacity secondary"
  shows "scene' = setVisibleInFrame (secondaryObjects h) (frameNumber context)
      (greaterZero (opacity secondary')) scene"
proof -
  let ?new = "applyBaseColorToMaterial secondary (handlerTechnique h)
      (handlerTechnique h ''secondaryColor'') (env context)"
  from assms(1,2) have h': "h' = h\<lparr>secondaryMaterial := Some ?new\<rparr>"
    by (auto simp: updateSecondaryColor_def Let_def split: if_splits)
  with assms(3) have new: "secondary' = ?new" by simp
  with assms(4) have "\<not> strictEq (opacity secondary) (opacity ?new)"
    by (auto dest: strictEq_same)
  with assms(1,2) new show ?thesis
    by (simp add: updateSecondaryColor_def Let_def)
qed

lemma exampleEntries_flags:
  assumes "visibilityRule exampleEntries 5 (Some (Num 0)) exampleScene sc"
  shows "visible (objects sc 0) = False \<and> visible (objects sc 1) = True"
proof -
  from assms have "visible (objects sc 0) = greaterZero (Some (Num 0))"
    unfolding visibilityRule_def by (simp add: exampleEntries_def exampleScene_def)
  moreover from assms have "objects sc 1 = objects exampleScene 1"
    unfolding visibilityRule_def by (simp add: exampleEntries_def exampleScene_def)
  ultimately show ?thesis
    by (simp add: exampleScene_def)
qed

text \<open>
  C3: every colour-driven updater follows the visibility rule. These are
  \<^verbatim>\<open>TechniqueHandlerCommon.updateBaseColor\<close> on the material and the list it is bound to,
  \<^verbatim>\<open>updateLineColor\<close> of the fill handler on the outline material and \<^verbatim>\<open>outlineObjects\<close>,
  \<^verbatim>\<open>updateLineColor\<close> of the extruded-polygon handler on the edge material and
  \<^verbatim>\<open>edgeObjects\<close>, and \<^verbatim>\<open>updateSecondaryColor\<close> of the line handler on the secondary material
  and \<^verbatim>\<open>secondaryObjects\<close>. When a run of one of them in frame \<open>N\<close> changes the opacity of its
  material, every entry of its list whose tile was last visible in frame \<open>N\<close> has its
  object's \<^verbatim>\<open>visible\<close> flag set to \<open>opacity > 0\<close>, and an object none of whose entries has
  such a tile is left as it was; with every object registered once this is every
  registered object whose tile was last visible in another frame. The objects of
  \<^verbatim>\<open>secondaryObjects\<close> are the main meshes of the line handler (see C9), so for
  \<^verbatim>\<open>updateSecondaryColor\<close> the flags set are theirs.
\<close>

theorem colour_updaters_visibility:
  "(updateBaseColor applyBaseColorToMaterial mat entries tech context scene = (mat', scene') \<and>
    opacity mat' \<noteq> opacity mat \<longrightarrow>
      visibilityRule entries (frameNumber context) (opacity mat') scene scene') \<and>
   (updateLineColor_Fill applyBaseColorToMaterial context (fh, scene) = Inr (fh', scene') \<and>
    outlineMaterial fh = Some outline \<and> outlineMaterial fh' = Some outline' \<and>
    opacity outline' \<noteq> opacity outline \<longrightarrow>
      visibilityRule (outlineObjects fh) (frameNumber context) (opacity outline') scene scene') \<and>
   (updateLineColor_ExtrudedPolygon applyBaseColorToMaterial context (eh, scene) =
      Inr (eh', scene') \<and>
    edgeMaterial eh = Some edge \<and> edgeMaterial eh' = Some edge' \<and>
    opacity edge' \<noteq> opacity edge \<longrightarrow>
      visibilityRule (edgeObjects eh) (frameNumber context) (opacity edge') scene scene') \<and>
   (updateSecondaryColor applyBaseColorToMaterial context (lh, scene) = Inr (lh', scene') \<and>
    secondaryMaterial lh = Some secondary \<and> secondaryMaterial lh' = Some secondary' \<and>
    opacity secondary' \<noteq> opacity secondary \<longrightarrow>
      visibilityRule (secondaryObjects lh) (frameNumber context) (opacity secondary')
        scene scene')"
proof (intro conjI impI)
  assume "updateBaseColor applyBaseColorToMaterial mat entries tech context scene =
      (mat', scene') \<and> opacity mat' \<noteq> opacity mat"
  then have "scene' = setVisibleInFrame entries (frameNumber context)
      (greaterZero (opacity mat')) scene"
    by (auto dest: updateBaseColor_changed)
  then show "visibilityRule entries (frameNumber context) (opacity mat') scene scene'"
    by (simp add: setVisibleInFrame_rule)
next
  assume a: "updateLineColor_Fill applyBaseColorToMaterial context (fh, scene) =
      Inr (fh', scene') \<and>
    outlineMaterial fh = Some outline \<and> outlineMaterial fh' = Some outline' \<and>
    opacity outline' \<noteq> opacity outline"
  have "scene' = setVisibleInFrame (outlineObjects fh) (frameNumber context)
      (greaterZero (opacity outline')) scene"
    using conjunct1 [OF a] conjunct1 [OF conjunct2 [OF a]]
      conjunct1 [OF conjunct2 [OF conjunct2 [OF a]]]
      conjunct2 [OF conjunct2 [OF conjunct2 [OF a]]]
    by (rule updateLineColor_Fill_changed)
  then show "visibilityRule (outlineObjects fh) (frameNumber context) (opacity outline')
      scene scene'"
    by (simp add: setVisibleInFrame_rule)
next
  assume a: "updateLineColor_ExtrudedPolygon applyBaseColorToMaterial context (eh, scene) =
      Inr (eh', scene') \<and>
    edgeMaterial eh = Some edge \<and> edgeMaterial eh' = Some edge' \<and>
    opacity edge' \<noteq> opacity edge"
  have "scene' = setVisibleInFrame (edgeObjects eh) (frameNumber context)
      (greaterZero (opacity edge')) scene"
    using conjunct1 [OF a] conjunct1 [OF conjunct2 [OF a]]
      conjunct1 [OF conjunct2 [OF conjunct2 [OF a]]]
      conjunct2 [OF conjunct2 [OF conjunct2 [OF a]]]
    by (rule updateLineColor_ExtrudedPolygon_changed)
  then show "visibilityRule (edgeObjects eh) (frameNumber context) (opacity edge') scene scene'"
    by (simp add: setVisibleInFrame_rule)
next
  assume a: "updateSecondaryColor applyBaseColorToMaterial context (lh, scene) =
      Inr (lh', scene') \<and>
    secondaryMaterial lh = Some secondary \<and> secondaryMaterial lh' = Some secondary' \<and>
    opacity secondary' \<noteq> opacity secondary"
  have "scene' = setVisibleInFrame (secondaryObjects lh) (frameNumber context)
      (greaterZero (opacity secondary')) scene"
    using conjunct1 [OF a] conjunct1 [OF conjunct2 [OF a]]
      conjunct1 [OF conjunct2 [OF conjunct2 [OF a]]]
      conjunct2 [OF conjunct2 [OF conjunct2 [OF a]]]
    by (rule updateSecondaryColor_changed)
  then show "visibilityRule (secondaryObjects lh) (frameNumber context) (opacity secondary')
      scene scene'"
    by (simp add: setVisibleInFrame_rule)
qed

theorem colour_updaters_visibility_witness:
  "(case updateBaseColor fadeOut exampleMaterial exampleEntries exampleLine pixelContext
          exampleScene of
      (m, sc) \<Rightarrow> visible (objects sc 0) = False \<and> visible (objects sc 1) = True) \<and>
   (case updateLineColor_Fill fadeOut pixelContext (exampleFillHandler, exampleScene) of
      Inl e \<Rightarrow> False
    | Inr (h, sc) \<Rightarrow> visible (objects sc 0) = False \<and> visible (objects sc 1) = True) \<and>
   (case updateLineColor_ExtrudedPolygon fadeOut pixelContext
          (exampleExtrudedHandler, exampleScene) of
      Inl e \<Rightarrow> False
    | Inr (h, sc) \<Rightarrow> visible (objects sc 0) = False \<and> visible (objects sc 1) = True) \<and>
   (case updateSecondaryColor fadeOut pixelContext
          (exampleLineHandler\<lparr>secondaryObjects := exampleEntries\<rparr>, exampleScene) of
      Inl e \<Rightarrow> False
    | Inr (h, sc) \<Rightarrow> visible (objects sc 0) = False \<and> visible (objects sc 1) = True)"
proof -
  let ?faded = "exampleMaterial\<lparr>opacity := Some (Num 0)\<rparr>"
  let ?lh = "exampleLineHandler\<lparr>secondaryObjects := exampleEntries\<rparr>"
  have changed: "opacity ?faded \<noteq> opacity exampleMaterial"
    by (simp add: exampleMaterial_def)
  have frame: "frameNumber pixelContext = 5"
    by (simp add: pixelContext_def)
  have ne: "\<not> strictEq (opacity exampleMaterial) (Some (Num 0))"
    by (simp add: exampleMaterial_def)
  obtain sc1 where r1: "updateBaseColor fadeOut exampleMaterial exampleEntries exampleLine
      pixelContext exampleScene = (?faded, sc1)"
    by (cases "updateBaseColor fadeOut exampleMaterial exampleEntries exampleLine
        pixelContext exampleScene")
      (auto simp: updateBaseColor_def fadeOut_def Let_def split: if_splits)
  obtain fh' sc2 where r2: "updateLineColor_Fill fadeOut pixelContext
      (exampleFillHandler, exampleScene) = Inr (fh', sc2)"
    and m2: "outlineMaterial fh' = Some ?faded"
    by (simp add: updateLineColor_Fill_def exampleFillHandler_def fadeOut_def Let_def ne)
  obtain eh' sc3 where r3: "updateLineColor_ExtrudedPolygon fadeOut pixelContext
      (exampleExtrudedHandler, exampleScene) = Inr (eh', sc3)"
    and m3: "edgeMaterial eh' = Some ?faded"
    by (simp add: updateLineColor_ExtrudedPolygon_def exampleExtrudedHandler_def fadeOut_def
        Let_def ne)
  obtain lh' sc4 where r4: "updateSecondaryColor fadeOut pixelContext (?lh, exampleScene) =
      Inr (lh', sc4)"
    and m4: "secondaryMaterial lh' = Some ?faded"
    by (simp add: updateSecondaryColor_def exampleLineHandler_def fadeOut_def Let_def ne)
  have b2: "outlineMaterial exampleFillHandler = Some exampleMaterial"
    "outlineObjects exampleFillHandler = exampleEntries"
    by (simp_all add: exampleFillHandler_def)
  have b3: "edgeMaterial exampleExtrudedHandler = Some exampleMaterial"
    "edgeObjects exampleExtrudedHandler = exampleEntries"
    by (simp_all add: exampleExtrudedHandler_def)
  have b4: "secondaryMaterial ?lh = Some exampleMaterial" "secondaryObjects ?lh = exampleEntries"
    by (simp_all add: exampleLineHandler_def)
  from colour_updaters_visibility [of fadeOut exampleMaterial exampleEntries exampleLine
      pixelContext exampleScene "?faded" sc1] r1 changed
  have v1: "visibilityRule exampleEntries 5 (Some (Num 0)) exampleScene sc1"
    by (simp add: frame)
  from colour_updaters_visibility [of fadeOut _ _ _ pixelContext exampleScene _ sc2
      exampleFillHandler fh' exampleMaterial "?faded"] r2 m2 b2 changed
  have v2: "visibilityRule exampleEntries 5 (Some (Num 0)) exampleScene sc2"
    by (simp add: frame)
  from colour_updaters_visibility [of fadeOut _ _ _ pixelContext exampleScene _ sc3 _ _ _ _
      exampleExtrudedHandler eh' exampleMaterial "?faded"] r3 m3 b3 changed
  have v3: "visibilityRule exampleEntries 5 (Some (Num 0)) exampleScene sc3"
    by (simp add: frame)
  from colour_updaters_visibility [of fadeOut _ _ _ pixelContext exampleScene _ sc4 _ _ _ _
      _ _ _ _ "?lh" lh' exampleMaterial "?faded"] r4 m4 b4 changed
  have v4: "visibilityRule exampleEntries 5 (Some (Num 0)) exampleScene sc4"
    by (simp add: frame)
  from exampleEntries_flags [OF v1] exampleEntries_flags [OF v2] exampleEntries_flags [OF v3]
    exampleEntries_flags [OF v4]
  show ?thesis
    by (simp add: r1 r2 r3 r4)
qed

subsection \<open>Line widths\<close>

text \<open>
  C6: the line width, dash size and gap size that an update applies are the evaluated
  technique value times the unit factor times \<open>0.5\<close>; the outline width is the evaluated
  value times the unit factor, with no \<open>0.5\<close>. The unit factor is \<open>1\<close> unless the metric
  unit is the pixel, and then it is the \<^verbatim>\<open>$pixelToWorld\<close> value of the environment, or \<open>1\<close>
  when the lookup finds none. A line width of \<open>10\<close> pixels with a ratio of \<open>0.02\<close> gives
  \<open>0.1\<close>.
\<close>

theorem width_updates_unit_factor:
  "lineWidth (mainMaterial (updateLineWidth context h)) =
     mul (mul (getPropertyValue (handlerTechnique h ''lineWidth'') (env context))
              (getUnitFactor context h)) (Num 0.5) \<and>
   dashSize (mainMaterial (updateDashSize context h)) =
     mul (mul (getPropertyValue (handlerTechnique h ''dashSize'') (env context))
              (getUnitFactor context h)) (Num 0.5) \<and>
   gapSize (mainMaterial (updateGapSize context h)) =
     mul (mul (getPropertyValue (handlerTechnique h ''gapSize'') (env context))
              (getUnitFactor context h)) (Num 0.5) \<and>
   outlineWidth (mainMaterial (updateOutlineWidth context h)) =
     mul (getPropertyValue (handlerTechnique h ''outlineWidth'') (env context))
         (getUnitFactor context h) \<and>
   getUnitFactor context h =
     (if metricUnitIsPixel h
      then (case env context ''$pixelToWorld'' of Some ratio \<Rightarrow> ratio | None \<Rightarrow> Num 1)
      else Num 1) \<and>
   (handlerTechnique h ''lineWidth'' = Some (Constant (Num 10)) \<and> metricUnitIsPixel h \<and>
    env context ''$pixelToWorld'' = Some (Num 0.02) \<longrightarrow>
      lineWidth (mainMaterial (updateLineWidth context h)) = Num 0.1)"
  by (simp add: updateLineWidth_def updateDashSize_def updateGapSize_def
      updateOutlineWidth_def getUnitFactor_def getPixelToWorld_def Let_def)

theorem width_updates_unit_factor_witness:
  "lineWidth (mainMaterial (updateLineWidth pixelContext exampleLineHandler)) = Num 0.1"
  using width_updates_unit_factor [of pixelContext exampleLineHandler]
  by (simp add: pixelContext_def exampleLineHandler_def exampleLine_def exampleMaterial_def)

text \<open>
  C7: on a handler with a secondary material, the secondary line width that the update
  applies is \<open>0\<close> when the converted secondary width (evaluated value times unit factor
  times \<open>0.5\<close>) is at most the line width of the main material and the opacity of the main
  material is \<open>1\<close> or \<^verbatim>\<open>undefined\<close>; otherwise it is the converted secondary width. With a
  main width of \<open>0.1\<close> and a converted secondary width of \<open>0.08\<close> it is \<open>0\<close> at opacity
  \<open>1\<close> and \<open>0.08\<close> at opacity \<open>0.5\<close>.
\<close>

theorem updateSecondaryWidth_collapse:
  assumes "secondaryMaterial h = Some secondary"
    and "converted =
      mul (mul (getPropertyValue (handlerTechnique h ''secondaryWidth'') (env context))
               (getUnitFactor context h)) (Num 0.5)"
  shows "\<exists>applied.
      updateSecondaryWidth context h =
        Inr (h\<lparr>secondaryMaterial := Some (secondary\<lparr>lineWidth := applied\<rparr>)\<rparr>) \<and>
      applied =
        (if lessEq converted (lineWidth (mainMaterial h)) \<and>
            (opacity (mainMaterial h) = None \<or> opacity (mainMaterial h) = Some (Num 1))
         then Num 0 else converted) \<and>
      (lineWidth (mainMaterial h) = Num 0.1 \<and> converted = Num 0.08 \<and>
       opacity (mainMaterial h) = Some (Num 1) \<longrightarrow> applied = Num 0) \<and>
      (lineWidth (mainMaterial h) = Num 0.1 \<and> converted = Num 0.08 \<and>
       opacity (mainMaterial h) = Some (Num 0.5) \<longrightarrow> applied = Num 0.08)"
  using assms by (auto simp: updateSecondaryWidth_def Let_def)

theorem updateSecondaryWidth_collapse_witness:
  "updateSecondaryWidth pixelContext
     (exampleLineHandler\<lparr>mainMaterial := exampleMaterial\<lparr>lineWidth := Num 0.1\<rparr>\<rparr>) =
     Inr (exampleLineHandler
           \<lparr>mainMaterial := exampleMaterial\<lparr>lineWidth := Num 0.1\<rparr>,
            secondaryMaterial := Some (exampleMaterial\<lparr>lineWidth := Num 0\<rparr>)\<rparr>) \<and>
   updateSecondaryWidth pixelContext
     (exampleLineHandler
        \<lparr>mainMaterial := exampleMaterial\<lparr>lineWidth := Num 0.1, opacity := Some (Num 0.5)\<rparr>\<rparr>) =
     Inr (exampleLineHandler
           \<lparr>mainMaterial := exampleMaterial\<lparr>lineWidth := Num 0.1, opacity := Some (Num 0.5)\<rparr>,
            secondaryMaterial := Some (exampleMaterial\<lparr>lineWidth := Num 0.08\<rparr>)\<rparr>)"
  using updateSecondaryWidth_collapse
      [of "exampleLineHandler\<lparr>mainMaterial := exampleMaterial\<lparr>lineWidth := Num 0.1\<rparr>\<rparr>"
        exampleMaterial "Num 0.08" pixelContext]
    updateSecondaryWidth_collapse
      [of "exampleLineHandler
        \<lparr>mainMaterial := exampleMaterial\<lparr>lineWidth := Num 0.1, opacity := Some (Num 0.5)\<rparr>\<rparr>"
        exampleMaterial "Num 0.08" pixelContext]
  by (simp add: pixelContext_def exampleLineHandler_def exampleLine_def exampleMaterial_def
      getUnitFactor_def getPixelToWorld_def)


subsection \<open>Secondary objects of a line handler\<close>

lemma createObject_secondary:
  assumes "secondaryMaterial h = Some secondary"
  shows "createObject tileRef (h, scene) =
     ([objectCount scene, Suc (objectCount scene)],
      h\<lparr>mainObjects := mainObjects h @ [\<lparr>object = objectCount scene, tile = tileRef\<rparr>],
        secondaryObjects := secondaryObjects h @ [\<lparr>object = objectCount scene, tile = tileRef\<rparr>]\<rparr>,
      scene\<lparr>objects := (objects scene)
               (objectCount scene := \<lparr>visible = True, material = MainMaterial\<rparr>,
                Suc (objectCount scene) := \<lparr>visible = True, material = SecondaryMaterial\<rparr>),
            objectCount := Suc (Suc (objectCount scene)),
            tileObjects := (tileObjects scene)
               (tileRef := tileObjects scene tileRef @
                  [objectCount scene, Suc (objectCount scene)])\<rparr>)"
  using assms by (simp add: createObject_def newMesh_def pushTileObject_def Let_def)

lemma createObject_single:
  assumes "secondaryMaterial h = None"
  shows "createObject tileRef (h, scene) =
     ([objectCount scene],
      h\<lparr>mainObjects := mainObjects h @ [\<lparr>object = objectCount scene, tile = tileRef\<rparr>]\<rparr>,
      scene\<lparr>objects := (objects scene)
               (objectCount scene := \<lparr>visible = True, material = MainMaterial\<rparr>),
            objectCount := Suc (objectCount scene),
            tileObjects := (tileObjects scene)
               (tileRef := tileObjects scene tileRef @ [objectCount scene])\<rparr>)"
  using assms by (simp add: createObject_def newMesh_def pushTileObject_def Let_def)

lemma createObject_keeps_secondaryEntriesMain:
  assumes "secondaryEntriesMain s" and "createObject tileRef s = (objs, s')"
  shows "secondaryEntriesMain s'"
proof -
  obtain h scene where s: "s = (h, scene)" by (cases s)
  show ?thesis
  proof (cases "secondaryMaterial h")
    case None
    from assms(2) createObject_single [OF None, of tileRef scene] s
    have "s' = (h\<lparr>mainObjects := mainObjects h @ [\<lparr>object = objectCount scene, tile = tileRef\<rparr>]\<rparr>,
      scene\<lparr>objects := (objects scene)
               (objectCount scene := \<lparr>visible = True, material = MainMaterial\<rparr>),
            objectCount := Suc (objectCount scene),
            tileObjects := (tileObjects scene)
               (tileRef := tileObjects scene tileRef @ [objectCount scene])\<rparr>)"
      by auto
    with assms(1) s show ?thesis
      by (auto simp: secondaryEntriesMain_def)
  next
    case (Some secondary)
    from assms(2) createObject_secondary [OF Some, of tileRef scene] s
    have "s' = (h\<lparr>mainObjects := mainObjects h @ [\<lparr>object = objectCount scene, tile = tileRef\<rparr>],
        secondaryObjects := secondaryObjects h @ [\<lparr>object = objectCount scene, tile = tileRef\<rparr>]\<rparr>,
      scene\<lparr>objects := (objects scene)
               (objectCount scene := \<lparr>visible = True, material = MainMaterial\<rparr>,
                Suc (objectCount scene) := \<lparr>visible = True, material = SecondaryMaterial\<rparr>),
            objectCount := Suc (Suc (objectCount scene)),
            tileObjects := (tileObjects scene)
               (tileRef := tileObjects scene tileRef @
                  [objectCount scene, Suc (objectCount scene)])\<rparr>)"
      by auto
    with assms(1) s show ?thesis
      by (auto simp: secondaryEntriesMain_def)
  qed
qed

lemma updateSecondaryColor_result:
  assumes "updateSecondaryColor applyBaseColorToMaterial context (h, scene) = Inr (h', scene')"
  shows "secondaryObjects h' = secondaryObjects h \<and> mainObjects h' = mainObjects h \<and>
     objectCount scene' = objectCount scene \<and>
     (scene' = scene \<or>
      (\<exists>v. scene' = setVisibleInFrame (secondaryObjects h) (frameNumber context) v scene))"
  using assms
  by (auto simp: updateSecondaryColor_def Let_def split: option.splits if_splits)

lemma updateSecondaryColor_returns:
  "secondaryMaterial h = Some secondary \<Longrightarrow>
   \<exists>h' scene'. updateSecondaryColor applyBaseColorToMaterial context (h, scene) = Inr (h', scene')"
  by (simp add: updateSecondaryColor_def Let_def)

lemma updateSecondaryColor_keeps_secondaryEntriesMain:
  assumes "secondaryEntriesMain s"
    and "updateSecondaryColor applyBaseColorToMaterial context s = Inr s'"
  shows "secondaryEntriesMain s'"
proof -
  obtain h scene where s: "s = (h, scene)" by (cases s)
  obtain h' scene' where s': "s' = (h', scene')" by (cases s')
  from updateSecondaryColor_result [OF assms(2) [unfolded s s']] assms(1) s s'
  show ?thesis
    by (auto simp: secondaryEntriesMain_def)
qed

lemma updateBaseColor_result:
  assumes "updateBaseColor applyBaseColorToMaterial mat entries tech context scene =
      (mat', scene')"
  shows "objectCount scene' = objectCount scene \<and>
     (\<forall>ref. material (objects scene' ref) = material (objects scene ref))"
  using assms by (auto simp: updateBaseColor_def Let_def split: if_splits)

lemma reachableLine_secondaryEntriesMain:
  "reachableLine applyBaseColorToMaterial s \<Longrightarrow> secondaryEntriesMain s"
proof (induction rule: reachableLine.induct)
  case (constructed h scene)
  then show ?case by (simp add: secondaryEntriesMain_def)
next
  case (created s tileRef objs s')
  then show ?case by (simp add: createObject_keeps_secondaryEntriesMain)
next
  case (secondaryColor s c s')
  then show ?case by (simp add: updateSecondaryColor_keeps_secondaryEntriesMain)
next
  case (baseColor h scene c mat' scene')
  from updateBaseColor_result [OF baseColor.hyps(2)] baseColor.IH
  show ?case by (simp add: secondaryEntriesMain_def)
next
  case (widths h scene h' c)
  from widths.hyps(2) have "secondaryObjects h' = secondaryObjects h"
    by (auto simp: updateLineWidth_def updateOutlineWidth_def updateDashSize_def
        updateGapSize_def updateSecondaryWidth_def Let_def split: option.splits)
  with widths.IH show ?case by (simp add: secondaryEntriesMain_def)
next
  case (outside h scene scene')
  then show ?case by (auto simp: secondaryEntriesMain_def)
qed

text \<open>
  C9: in every state that a line handler with a secondary material and the scene can
  reach, \<^verbatim>\<open>createObject\<close> returns a new main mesh and a new secondary mesh and appends to
  the secondary list an entry that refers to the main mesh; and \<^verbatim>\<open>updateSecondaryColor\<close>
  leaves the \<^verbatim>\<open>visible\<close> flag of every mesh with the secondary material as it was: an
  object whose flag it changes is a main mesh of the secondary list.
\<close>

theorem secondaryObjects_hold_main_mesh:
  assumes "reachableLine applyBaseColorToMaterial (h, scene)"
    and "secondaryMaterial h = Some secondary"
  shows "(\<exists>h' scene'.
            createObject tileRef (h, scene) =
              ([objectCount scene, Suc (objectCount scene)], h', scene') \<and>
            material (objects scene' (objectCount scene)) = MainMaterial \<and>
            material (objects scene' (Suc (objectCount scene))) = SecondaryMaterial \<and>
            secondaryObjects h' =
              secondaryObjects h @ [\<lparr>object = objectCount scene, tile = tileRef\<rparr>]) \<and>
         (\<exists>h' scene'.
            updateSecondaryColor applyBaseColorToMaterial context (h, scene) = Inr (h', scene') \<and>
            (\<forall>ref. material (objects scene ref) = SecondaryMaterial \<longrightarrow>
                   visible (objects scene' ref) = visible (objects scene ref)) \<and>
            (\<forall>ref. visible (objects scene' ref) \<noteq> visible (objects scene ref) \<longrightarrow>
                   material (objects scene ref) = MainMaterial \<and>
                   ref \<in> object ` set (secondaryObjects h)))"
proof
  show "\<exists>h' scene'.
            createObject tileRef (h, scene) =
              ([objectCount scene, Suc (objectCount scene)], h', scene') \<and>
            material (objects scene' (objectCount scene)) = MainMaterial \<and>
            material (objects scene' (Suc (objectCount scene))) = SecondaryMaterial \<and>
            secondaryObjects h' =
              secondaryObjects h @ [\<lparr>object = objectCount scene, tile = tileRef\<rparr>]"
    by (simp add: createObject_secondary [OF assms(2)])
next
  have inv: "\<forall>entry \<in> set (secondaryObjects h).
      material (objects scene (object entry)) = MainMaterial"
    using reachableLine_secondaryEntriesMain [OF assms(1)]
    by (simp add: secondaryEntriesMain_def)
  obtain h' scene' where
    r: "updateSecondaryColor applyBaseColorToMaterial context (h, scene) = Inr (h', scene')"
    using updateSecondaryColor_returns [OF assms(2)] by blast
  from updateSecondaryColor_result [OF r]
  consider "scene' = scene"
    | v where "scene' = setVisibleInFrame (secondaryObjects h) (frameNumber context) v scene"
    by blast
  then have "(\<forall>ref. material (objects scene ref) = SecondaryMaterial \<longrightarrow>
                   visible (objects scene' ref) = visible (objects scene ref)) \<and>
            (\<forall>ref. visible (objects scene' ref) \<noteq> visible (objects scene ref) \<longrightarrow>
                   material (objects scene ref) = MainMaterial \<and>
                   ref \<in> object ` set (secondaryObjects h))"
  proof cases
    case 1
    then show ?thesis by simp
  next
    case 2
    with inv show ?thesis
      by (auto simp: setVisibleInFrame_objects)
  qed
  with r show "\<exists>h' scene'.
            updateSecondaryColor applyBaseColorToMaterial context (h, scene) = Inr (h', scene') \<and>
            (\<forall>ref. material (objects scene ref) = SecondaryMaterial \<longrightarrow>
                   visible (objects scene' ref) = visible (objects scene ref)) \<and>
            (\<forall>ref. visible (objects scene' ref) \<noteq> visible (objects scene ref) \<longrightarrow>
                   material (objects scene ref) = MainMaterial \<and>
                   ref \<in> object ` set (secondaryObjects h))"
    by blast
qed


theorem secondaryObjects_hold_main_mesh_witness:
  "\<exists>h1 scene1 h2 scene2.
     createObject 0 (exampleLineHandler, exampleScene) = ([0, 1], h1, scene1) \<and>
     secondaryObjects h1 = [\<lparr>object = 0, tile = 0\<rparr>] \<and>
     material (objects scene1 0) = MainMaterial \<and>
     material (objects scene1 1) = SecondaryMaterial \<and>
     updateSecondaryColor fadeOut pixelContext (h1, scene1) = Inr (h2, scene2) \<and>
     visible (objects scene2 1) = visible (objects scene1 1) \<and>
     visible (objects scene1 0) = True \<and>
     visible (objects scene2 0) = False"
proof -
  have sec: "secondaryMaterial exampleLineHandler = Some exampleMaterial"
    by (simp add: exampleLineHandler_def)
  have start: "reachableLine fadeOut (exampleLineHandler, exampleScene)"
    by (rule reachableLine.constructed) (simp_all add: exampleLineHandler_def)
  from secondaryObjects_hold_main_mesh [OF start sec, of 0 pixelContext]
  obtain h1 scene1 where
    c: "createObject 0 (exampleLineHandler, exampleScene) =
          ([objectCount exampleScene, Suc (objectCount exampleScene)], h1, scene1)"
      "material (objects scene1 (objectCount exampleScene)) = MainMaterial"
      "material (objects scene1 (Suc (objectCount exampleScene))) = SecondaryMaterial"
      "secondaryObjects h1 = secondaryObjects exampleLineHandler @
         [\<lparr>object = objectCount exampleScene, tile = 0\<rparr>]"
    by blast
  have next1: "reachableLine fadeOut (h1, scene1)"
    using start c(1) by (rule reachableLine.created)
  have sec1: "secondaryMaterial h1 = Some exampleMaterial"
    using c(1) sec by (auto simp: createObject_secondary [OF sec])
  from secondaryObjects_hold_main_mesh [OF next1 sec1, of 0 pixelContext]
  obtain h2 scene2 where
    u: "updateSecondaryColor fadeOut pixelContext (h1, scene1) = Inr (h2, scene2)"
      "\<forall>ref. material (objects scene1 ref) = SecondaryMaterial \<longrightarrow>
         visible (objects scene2 ref) = visible (objects scene1 ref)"
    by blast
  have count0: "objectCount exampleScene = 0"
    by (simp add: exampleScene_def)
  from u(2) c(3) have kept: "visible (objects scene2 1) = visible (objects scene1 1)"
    by (simp add: count0)
  have made: "h1 = exampleLineHandler
        \<lparr>mainObjects := mainObjects exampleLineHandler @ [\<lparr>object = 0, tile = 0\<rparr>],
         secondaryObjects := secondaryObjects exampleLineHandler @ [\<lparr>object = 0, tile = 0\<rparr>]\<rparr>"
    "scene1 = exampleScene
        \<lparr>objects := (objects exampleScene)
           (0 := \<lparr>visible = True, material = MainMaterial\<rparr>,
            Suc 0 := \<lparr>visible = True, material = SecondaryMaterial\<rparr>),
         objectCount := Suc (Suc 0),
         tileObjects := (tileObjects exampleScene) (0 := tileObjects exampleScene 0 @ [0, Suc 0])\<rparr>"
    using c(1) by (auto simp: createObject_secondary [OF sec] count0)
  have main: "visible (objects scene1 0) = True \<and> visible (objects scene2 0) = False"
    using u(1) unfolding made
    by (auto simp: updateSecondaryColor_def Let_def exampleLineHandler_def exampleMaterial_def
        exampleScene_def fadeOut_def pixelContext_def)
  from c u(1) kept main show ?thesis
    by (simp add: count0 exampleLineHandler_def)
qed

end
